theory Spec2Isabelle
  imports Complex_Main "HOL-Library.Log_Nat"
begin

section \<open>Data model\<close>

text \<open>
  The repository holds two Vue components: the modal form \<open>EditDialog\<close> and the
  listing screen that owns the record collection and the pagination state (the spec calls
  them RecordEditor and RecordTable).

  A JavaScript string is a sequence of UTF-16 code units and \<open>.length\<close> counts them,
  so a string is a list of code units here.
\<close>

type_synonym js_string = "nat list"

text \<open>The union of the two status literals of the source (the words for enabled and disabled).\<close>

datatype Status = Enabled | Disabled

datatype DialogMode = Add | Edit

text \<open>
  The fields that \<open>EditFormData\<close> and \<open>TableItem\<close> share. TypeScript's types are
  erased when the program runs: \<open>initForm\<close> guards every field with \<open>||\<close> and the
  validation rules ask for \<open>required\<close>, so a field is an option here and \<open>None\<close> is
  JavaScript's \<open>undefined\<close>.
\<close>

record FormFields =
  categoryNameZh :: "js_string option"
  categoryNameEn :: "js_string option"
  sortOrder :: "int option"
  status :: "Status option"

text \<open>Interface \<open>EditFormData\<close>: the shared fields and the optional \<open>id\<close>.\<close>

record EditFormData = FormFields +
  form_id :: "int option"

text \<open>Interface \<open>TableItem\<close>: the shared fields and the \<open>id\<close>, a number.\<close>

record TableItem = FormFields +
  item_id :: int

section \<open>JavaScript numbers\<close>

text \<open>
  A JavaScript number is an IEEE 754 double. The page numbers of the screen are numbers
  that the user can type (the jump input takes 3.5 as well as 3), so they are rationals
  here, and the result of every sum, difference and product is rounded as the double
  arithmetic rounds it: to the nearest double, to the one with the even significand when
  two are equally near (\<open>fl\<close>). A double has a significand of 53 bits; its exponent is
  at least -1022, below which the spacing of the doubles stays that of the exponent -1022.

  Not in the model: the infinities and NaN. A result beyond the largest double (about
  1.8e308) is an infinity in JavaScript and stays finite here; in the handlers only the
  bounds of a \<open>slice\<close> can grow that large, and \<open>slice\<close> clamps both to the array
  alike.
\<close>

text \<open>The exponent of a number other than 0: \<open>2 ^ e \<le> |x| < 2 ^ (e + 1)\<close>.\<close>

definition ilog2 :: "rat \<Rightarrow> int" where
  "ilog2 x =
     (let (a, b) = quotient_of \<bar>x\<bar>; k = bitlen a - bitlen b
      in if 2 powi k \<le> \<bar>x\<bar> then k else k - 1)"

definition round_half_even :: "rat \<Rightarrow> int" where
  "round_half_even q =
     (let f = \<lfloor>q\<rfloor>; r = q - of_int f
      in if r < 1 / 2 then f else if 1 / 2 < r then f + 1 else if even f then f else f + 1)"

text \<open>The distance between the doubles around \<open>x\<close>.\<close>

definition ulp :: "rat \<Rightarrow> rat" where
  "ulp x = 2 powi (max (ilog2 x) (- 1022) - 52)"

definition fl :: "rat \<Rightarrow> rat" where
  "fl x = (if x = 0 then 0 else of_int (round_half_even (x / ulp x)) * ulp x)"

text \<open>\<open>ToIntegerOrInfinity\<close>, which \<open>slice\<close> applies to its arguments: the fraction is cut off.\<close>

definition to_integer :: "rat \<Rightarrow> int" where
  "to_integer x = (if 0 \<le> x then \<lfloor>x\<rfloor> else \<lceil>x\<rceil>)"

section \<open>The listing screen\<close>

text \<open>
  \<open>ElMessage.success\<close> and \<open>ElMessage.error\<close> are recorded in a log; the four texts
  of the source are, in order of appearance: deleted, modified, target of the edit not
  found, added.
\<close>

datatype MessageText = DeleteDone | EditDone | EditTargetMissing | AddDone

datatype Message = Success MessageText | Error MessageText

text \<open>The one exception that a handler of the screen can throw and not catch.\<close>

datatype JsError = RangeError

text \<open>
  The state of the component: \<open>tableData\<close>, the three refs of the dialog, and the
  fields of the reactive \<open>pagination\<close> object (\<open>pageSizeOptions\<close> is a constant).
  \<open>currentPage\<close> and \<open>jumpPage\<close> are numbers; an emptied jump input holds the empty
  string, which the guard of \<open>handleJump\<close>, its only reader, converts to 0, and is 0
  here. The page size is an integer: 2 at the start, then one of those the select offers.

  Two fields are not refs of the component but belong to the engine that runs it:
  \<open>maxArguments\<close> is the number of arguments that the engine accepts in one call (it
  differs between engines, some ten thousands to some hundred thousands), and \<open>uncaught\<close>
  lists the exceptions that a handler has thrown; the event dispatch of the framework
  reports them and goes on.
\<close>

record RecordTable =
  tableData :: "TableItem list"
  dialogVisible :: bool
  currentEditData :: "EditFormData option"
  dialogMode :: DialogMode
  currentPage :: rat
  pageSize :: int
  jumpPage :: rat
  messages :: "Message list"
  maxArguments :: nat
  uncaught :: "JsError list"

definition pageSizeOptions :: "int list" where
  "pageSizeOptions = [10, 20, 50, 100]"

definition total :: "RecordTable \<Rightarrow> int" where
  "total s = int (length (tableData s))"

text \<open>
  \<open>Math.ceil(a / b)\<close> on integers, in integer arithmetic. It is the ceiling of the
  quotient whenever \<open>b \<noteq> 0\<close> (lemma \<open>ceil_div_ceiling\<close>), and the rounding of the
  double quotient does not reach the next integer while \<open>a\<close>, the length of an array, is
  below \<open>2 ^ 53\<close>. JavaScript divides by zero to an infinity or NaN, which this model does
  not have, so the theorems that depend on the value ask for a page size other than 0.
\<close>

definition ceil_div :: "int \<Rightarrow> int \<Rightarrow> int" where
  "ceil_div a b = - ((- a) div b)"

text \<open>
  \<open>Array.prototype.slice(start, end)\<close>: both arguments are converted to integers, a
  negative bound counts from the end of the array, both bounds are clamped to the array,
  and an empty range gives the empty array.
\<close>

definition relative_index :: "int \<Rightarrow> int \<Rightarrow> int" where
  "relative_index len i = (if i < 0 then max (len + i) 0 else min i len)"

definition slice :: "'a list \<Rightarrow> rat \<Rightarrow> rat \<Rightarrow> 'a list" where
  "slice xs start end =
     (let len = int (length xs);
          k = relative_index len (to_integer start);
          final = relative_index len (to_integer end)
      in take (nat (final - k)) (drop (nat k) xs))"

definition paginatedData :: "RecordTable \<Rightarrow> TableItem list" where
  "paginatedData s =
     (let start = fl (fl (currentPage s - 1) * of_int (pageSize s));
          end = fl (start + of_int (pageSize s))
      in slice (tableData s) start end)"

text \<open>\<open>Array.prototype.findIndex\<close>: the first index whose element passes, or -1.\<close>

fun findIndexFrom :: "('a \<Rightarrow> bool) \<Rightarrow> 'a list \<Rightarrow> int \<Rightarrow> int" where
  "findIndexFrom P [] k = - 1"
| "findIndexFrom P (x # xs) k = (if P x then k else findIndexFrom P xs (k + 1))"

definition findIndex :: "('a \<Rightarrow> bool) \<Rightarrow> 'a list \<Rightarrow> int" where
  "findIndex P xs = findIndexFrom P xs 0"

text \<open>\<open>xs.splice(index, 1)\<close> for an index inside the array: that element is removed.\<close>

definition splice1 :: "nat \<Rightarrow> 'a list \<Rightarrow> 'a list" where
  "splice1 i xs = take i xs @ drop (Suc i) xs"

text \<open>\<open>Math.max(...ids, 0)\<close>: the largest of the arguments, the last of which is 0.\<close>

definition math_max0 :: "int list \<Rightarrow> int" where
  "math_max0 ids = foldr max ids 0"

text \<open>The object literal \<open>{ ...data, id: k }\<close> that both commit handlers build.\<close>

definition with_id :: "EditFormData \<Rightarrow> int \<Rightarrow> TableItem" where
  "with_id data k =
     \<lparr> categoryNameZh = categoryNameZh data, categoryNameEn = categoryNameEn data,
       sortOrder = sortOrder data, status = status data, item_id = k \<rparr>"

text \<open>The object literal \<open>{ ...row }\<close> of \<open>handleEdit\<close>.\<close>

definition copy_row :: "TableItem \<Rightarrow> EditFormData" where
  "copy_row row =
     \<lparr> categoryNameZh = categoryNameZh row, categoryNameEn = categoryNameEn row,
       sortOrder = sortOrder row, status = status row, form_id = Some (item_id row) \<rparr>"

definition handleAdd :: "RecordTable \<Rightarrow> RecordTable" where
  "handleAdd s = s\<lparr> dialogMode := Add, currentEditData := None, dialogVisible := True \<rparr>"

definition handleEdit :: "TableItem \<Rightarrow> RecordTable \<Rightarrow> RecordTable" where
  "handleEdit row s =
     s\<lparr> dialogMode := Edit, currentEditData := Some (copy_row row), dialogVisible := True \<rparr>"

text \<open>
  \<open>handleDelete\<close>. The first argument is the answer of the confirmation prompt: when the
  user declines, the awaited promise rejects and the empty \<open>catch\<close> swallows it.
\<close>

definition handleDelete :: "bool \<Rightarrow> TableItem \<Rightarrow> RecordTable \<Rightarrow> RecordTable" where
  "handleDelete confirmed row s =
     (if \<not> confirmed then s
      else
        let index = findIndex (\<lambda>item. item_id item = item_id row) (tableData s) in
        if index > - 1 then
          let s1 = s\<lparr> tableData := splice1 (nat index) (tableData s),
                      messages := messages s @ [Success DeleteDone] \<rparr>
          in if length (paginatedData s1) = 0 \<and> currentPage s1 > 1
             then s1\<lparr> currentPage := fl (currentPage s1 - 1),
                      jumpPage := fl (currentPage s1 - 1) \<rparr>
             else s1
        else s)"

text \<open>
  The two entries of \<open>modeHandlers\<close>. In \<open>edit\<close>, \<open>item.id === data.id\<close> compares a
  number with a possibly undefined \<open>id\<close>, and \<open>data.id!\<close> is read only after a match, where
  it is defined (lemma \<open>findIndex_id_defined\<close>).
\<close>

definition edit_handler :: "EditFormData \<Rightarrow> RecordTable \<Rightarrow> RecordTable" where
  "edit_handler data s =
     (let index = findIndex (\<lambda>item. Some (item_id item) = form_id data) (tableData s) in
      if index > - 1 then
        (case form_id data of
           Some k \<Rightarrow> s\<lparr> tableData := (tableData s)[nat index := with_id data k],
                        messages := messages s @ [Success EditDone] \<rparr>
         | None \<Rightarrow> s)
      else s\<lparr> messages := messages s @ [Error EditTargetMissing] \<rparr>)"

text \<open>
  In \<open>add\<close>, the spread \<open>Math.max(...ids, 0)\<close> passes every id and the 0 as the
  arguments of one call, and the engine throws a \<open>RangeError\<close> when they are more than
  it accepts: nothing after it runs. The ids are numbers, so \<open>+ 1\<close> is rounded: from
  \<open>2 ^ 53\<close> on the sum is not the next integer.
\<close>

definition add_handler :: "EditFormData \<Rightarrow> RecordTable \<Rightarrow> RecordTable" where
  "add_handler data s =
     (if maxArguments s < length (tableData s) + 1
      then s\<lparr> uncaught := uncaught s @ [RangeError] \<rparr>
      else
        let newId = to_integer (fl (of_int (math_max0 (map item_id (tableData s))) + 1));
            s1 = s\<lparr> tableData := tableData s @ [with_id data newId],
                     messages := messages s @ [Success AddDone] \<rparr>;
            pages = ceil_div (total s1) (pageSize s1)
        in s1\<lparr> currentPage := of_int pages, jumpPage := of_int pages \<rparr>)"

definition handleDialogConfirm :: "EditFormData \<Rightarrow> RecordTable \<Rightarrow> RecordTable" where
  "handleDialogConfirm data s =
     (case dialogMode s of Edit \<Rightarrow> edit_handler data s | Add \<Rightarrow> add_handler data s)"

definition handleSizeChange :: "int \<Rightarrow> RecordTable \<Rightarrow> RecordTable" where
  "handleSizeChange val s = s\<lparr> pageSize := val, currentPage := 1 \<rparr>"

definition handleCurrentChange :: "rat \<Rightarrow> RecordTable \<Rightarrow> RecordTable" where
  "handleCurrentChange val s = s\<lparr> currentPage := val, jumpPage := val \<rparr>"

definition handleJump :: "RecordTable \<Rightarrow> RecordTable" where
  "handleJump s =
     (if jumpPage s \<ge> 1 \<and> jumpPage s \<le> of_int (ceil_div (total s) (pageSize s))
      then s\<lparr> currentPage := jumpPage s \<rparr>
      else s)"

subsection \<open>The initial screen\<close>

text \<open>
  The mock data the component starts with: eight rows that share their two names (three
  Chinese characters, and \<open>combat flight control\<close>), given as UTF-16 code units. The
  argument is the engine's bound on the arguments of a call.
\<close>

definition flight_zh :: js_string where
  "flight_zh = [39134, 34892, 22120]"

definition flight_en :: js_string where
  "flight_en = [99, 111, 109, 98, 97, 116, 32, 102, 108, 105, 103, 104, 116, 32,
                99, 111, 110, 116, 114, 111, 108]"

definition mock_row :: "int \<Rightarrow> int \<Rightarrow> Status \<Rightarrow> TableItem" where
  "mock_row k n st =
     \<lparr> categoryNameZh = Some flight_zh, categoryNameEn = Some flight_en,
       sortOrder = Some n, status = Some st, item_id = k \<rparr>"

definition init_state :: "nat \<Rightarrow> RecordTable" where
  "init_state m =
     \<lparr> tableData =
         [mock_row 2356 1 Enabled, mock_row 2645 2 Enabled, mock_row 2632 3 Disabled,
          mock_row 2630 6 Enabled, mock_row 2662 5 Enabled, mock_row 2699 4 Enabled,
          mock_row 2369 9 Enabled, mock_row 2586 11 Enabled],
       dialogVisible = False, currentEditData = None, dialogMode = Add,
       currentPage = 1, pageSize = 2, jumpPage = 1, messages = [],
       maxArguments = m, uncaught = [] \<rparr>"

text \<open>
  What the user can do on the initial screen with the jump input and two rows: type
  \<open>3.5\<close> and press Enter (\<open>v-model.number\<close> stores the number 3.5, the Enter key calls
  \<open>handleJump\<close>), then delete the rows 2699 and 2369 and confirm each prompt.
\<close>

definition jumped_to_half_page :: "nat \<Rightarrow> RecordTable" where
  "jumped_to_half_page m = handleJump ((init_state m)\<lparr> jumpPage := 7 / 2 \<rparr>)"

definition half_page_after_deletes :: "nat \<Rightarrow> RecordTable" where
  "half_page_after_deletes m =
     handleDelete True (mock_row 2369 9 Enabled)
       (handleDelete True (mock_row 2699 4 Enabled) (jumped_to_half_page m))"

subsection \<open>The collections of the specification's examples\<close>

text \<open>
  A record written \<open>{id: k}\<close>, and a screen showing page \<open>p\<close> of some rows, on an
  engine that accepts 65536 arguments.
\<close>

definition bare_row :: "int \<Rightarrow> TableItem" where
  "bare_row k =
     \<lparr> categoryNameZh = None, categoryNameEn = None, sortOrder = None, status = None,
       item_id = k \<rparr>"

definition showing :: "TableItem list \<Rightarrow> int \<Rightarrow> rat \<Rightarrow> DialogMode \<Rightarrow> RecordTable" where
  "showing rows n p m =
     \<lparr> tableData = rows, dialogVisible = False, currentEditData = None, dialogMode = m,
       currentPage = p, pageSize = n, jumpPage = p, messages = [],
       maxArguments = 65536, uncaught = [] \<rparr>"

text \<open>A draft as the dialog hands it over: the name \<open>zh\<close>, and an \<open>id\<close> or none.\<close>

definition sample_draft :: "int option \<Rightarrow> js_string \<Rightarrow> EditFormData" where
  "sample_draft k zh =
     \<lparr> categoryNameZh = Some zh, categoryNameEn = Some flight_en, sortOrder = Some 1,
       status = Some Enabled, form_id = k \<rparr>"

section \<open>The form dialog\<close>

text \<open>
  The dialog receives its initial data as a reference to an object of the host and hands
  its result back as another object, so the objects live in an explicit store: an address
  is a natural number, \<open>heap\<close> gives the object at each address and the addresses below
  \<open>fresh\<close> are the ones allocated so far (an object literal takes the next one).
\<close>

type_synonym ref = nat

record Props =
  visible :: bool
  formData :: "ref option"
  mode :: DialogMode

text \<open>The three events of \<open>defineEmits\<close>; \<open>confirm\<close> carries a reference.\<close>

datatype Event = UpdateVisible bool | Confirm ref | Cancel

datatype Field = CategoryNameZh | CategoryNameEn | SortOrder | StatusField

text \<open>
  The rule objects of the constant \<open>rules\<close>, without their \<open>message\<close> and \<open>trigger\<close>:
  \<open>{ required: true }\<close>, \<open>{ max: n }\<close> and \<open>{ type: 'number', min: n }\<close>.
\<close>

datatype Rule = Required | MaxLen nat | NumberMin int

definition maxLength :: nat where
  "maxLength = 50"

definition rules :: "(Field \<times> Rule list) list" where
  "rules =
     [(CategoryNameZh, [Required, MaxLen maxLength]),
      (CategoryNameEn, [Required, MaxLen maxLength]),
      (SortOrder, [Required, NumberMin 1]),
      (StatusField, [Required])]"

text \<open>
  The instance behind \<open>formRef\<close>, once the form is mounted: the values its items
  captured then (what \<open>resetFields\<close> restores) and the fields that show a message.
\<close>

record FormInstance =
  initialValues :: FormFields
  invalidFields :: "Field list"

record EditDialog =
  heap :: "ref \<Rightarrow> EditFormData"
  fresh :: ref
  props :: Props
  form :: ref
  formRef :: "FormInstance option"
  emitted :: "Event list"

text \<open>\<open>form.value\<close>, the draft.\<close>

definition draft :: "EditDialog \<Rightarrow> EditFormData" where
  "draft d = heap d (form d)"

text \<open>An object literal: a new object at the next free address, \<open>fresh d\<close>.\<close>

definition new_object :: "EditFormData \<Rightarrow> EditDialog \<Rightarrow> EditDialog" where
  "new_object obj d = d\<lparr> heap := (heap d)(fresh d := obj), fresh := Suc (fresh d) \<rparr>"

definition emit :: "Event \<Rightarrow> EditDialog \<Rightarrow> EditDialog" where
  "emit e d = d\<lparr> emitted := emitted d @ [e] \<rparr>"

text \<open>
  JavaScript's \<open>x || dflt\<close> at the three types of the fields: the default replaces an
  undefined value, the empty string and the number 0. Both status literals are non-empty
  strings, hence never replaced.
\<close>

definition str_or :: "js_string option \<Rightarrow> js_string \<Rightarrow> js_string" where
  "str_or x dflt = (case x of None \<Rightarrow> dflt | Some s \<Rightarrow> if s = [] then dflt else s)"

definition num_or :: "int option \<Rightarrow> int \<Rightarrow> int" where
  "num_or x dflt = (case x of None \<Rightarrow> dflt | Some n \<Rightarrow> if n = 0 then dflt else n)"

definition status_or :: "Status option \<Rightarrow> Status \<Rightarrow> Status" where
  "status_or x dflt = (case x of None \<Rightarrow> dflt | Some st \<Rightarrow> st)"

definition isEditMode :: "EditDialog \<Rightarrow> bool" where
  "isEditMode d \<longleftrightarrow> mode (props d) = Edit"

text \<open>
  \<open>initForm\<close> assigns a new object to \<open>form.value\<close> in both branches; \<open>props.formData\<close>
  is only read.
\<close>

definition initForm :: "EditDialog \<Rightarrow> EditDialog" where
  "initForm d =
     (case (isEditMode d, formData (props d)) of
        (True, Some a) \<Rightarrow>
          (new_object
             \<lparr> categoryNameZh = Some (str_or (categoryNameZh (heap d a)) []),
               categoryNameEn = Some (str_or (categoryNameEn (heap d a)) []),
               sortOrder = Some (num_or (sortOrder (heap d a)) 1),
               status = Some (status_or (status (heap d a)) Enabled),
               form_id = form_id (heap d a) \<rparr> d)
          \<lparr> form := fresh d \<rparr>
      | _ \<Rightarrow>
          (new_object
             \<lparr> categoryNameZh = Some [], categoryNameEn = Some [], sortOrder = Some 1,
               status = Some Enabled, form_id = None \<rparr> d)
          \<lparr> form := fresh d \<rparr>)"

text \<open>
  The host passes new props; the watcher on \<open>props.visible\<close> runs when the value has
  changed, before the component renders again, and calls \<open>initForm\<close> when the new value
  is true.
\<close>

definition set_props :: "Props \<Rightarrow> EditDialog \<Rightarrow> EditDialog" where
  "set_props p d =
     (let d1 = d\<lparr> props := p \<rparr>
      in if visible p \<noteq> visible (props d) then (if visible p then initForm d1 else d1)
         else d1)"

text \<open>
  The four \<open>v-model\<close> bindings of the template write a field of the draft object. The
  number input gives no number when it is cleared.
\<close>

datatype Edit =
  SetNameZh js_string | SetNameEn js_string | SetSortOrder "int option" | SetStatus Status

fun write_field :: "Edit \<Rightarrow> EditFormData \<Rightarrow> EditFormData" where
  "write_field (SetNameZh v) obj = obj\<lparr> categoryNameZh := Some v \<rparr>"
| "write_field (SetNameEn v) obj = obj\<lparr> categoryNameEn := Some v \<rparr>"
| "write_field (SetSortOrder v) obj = obj\<lparr> sortOrder := v \<rparr>"
| "write_field (SetStatus v) obj = obj\<lparr> status := Some v \<rparr>"

definition input :: "Edit \<Rightarrow> EditDialog \<Rightarrow> EditDialog" where
  "input e d = d\<lparr> heap := (heap d)(form d := write_field e (draft d)) \<rparr>"

subsection \<open>The form library\<close>

text \<open>
  Modelled from the spec: \<open>validate\<close>, \<open>resetFields\<close> and \<open>clearValidate\<close> are methods
  of the form component of the UI library, which is not part of the repository. The
  source gives them the table \<open>rules\<close> and the draft as \<open>model\<close>. A rule means what the
  specification says of it (section 4.1): \<open>required\<close> asks for a value that is there
  and is not the empty string, \<open>max\<close> for a string of at most that many characters,
  \<open>type: 'number', min\<close> for a number that is at least \<open>min\<close>; a rule other than
  \<open>required\<close> says nothing about a value that is not there. \<open>validate\<close> yields the
  fields that fail one of their rules and shows them, \<open>resetFields\<close> writes the captured
  initial values back into the model object and clears the messages, \<open>clearValidate\<close>
  clears the messages.
\<close>

datatype Value = Undefined | Str js_string | Num int | Stat Status

definition field_value :: "Field \<Rightarrow> EditFormData \<Rightarrow> Value" where
  "field_value f obj =
     (case f of
        CategoryNameZh \<Rightarrow> (case categoryNameZh obj of None \<Rightarrow> Undefined | Some s \<Rightarrow> Str s)
      | CategoryNameEn \<Rightarrow> (case categoryNameEn obj of None \<Rightarrow> Undefined | Some s \<Rightarrow> Str s)
      | SortOrder \<Rightarrow> (case sortOrder obj of None \<Rightarrow> Undefined | Some n \<Rightarrow> Num n)
      | StatusField \<Rightarrow> (case status obj of None \<Rightarrow> Undefined | Some st \<Rightarrow> Stat st))"

fun passes :: "Rule \<Rightarrow> Value \<Rightarrow> bool" where
  "passes Required v = (v \<noteq> Undefined \<and> v \<noteq> Str [])"
| "passes (MaxLen n) (Str s) = (length s \<le> n)"
| "passes (MaxLen n) Undefined = True"
| "passes (MaxLen n) v = False"
| "passes (NumberMin m) (Num k) = (m \<le> k)"
| "passes (NumberMin m) Undefined = True"
| "passes (NumberMin m) v = False"

definition validate :: "EditFormData \<Rightarrow> Field list" where
  "validate obj =
     map fst (filter (\<lambda>(f, rs). \<not> list_all (\<lambda>r. passes r (field_value f obj)) rs) rules)"

definition resetFields :: "FormInstance \<Rightarrow> EditDialog \<Rightarrow> EditDialog" where
  "resetFields fi d =
     d\<lparr> heap := (heap d)(form d :=
            (draft d)\<lparr> categoryNameZh := categoryNameZh (initialValues fi),
                       categoryNameEn := categoryNameEn (initialValues fi),
                       sortOrder := sortOrder (initialValues fi),
                       status := status (initialValues fi) \<rparr>),
        formRef := Some (fi\<lparr> invalidFields := [] \<rparr>) \<rparr>"

definition clearValidate :: "FormInstance \<Rightarrow> EditDialog \<Rightarrow> EditDialog" where
  "clearValidate fi d = d\<lparr> formRef := Some (fi\<lparr> invalidFields := [] \<rparr>) \<rparr>"

subsection \<open>The handlers of the dialog\<close>

text \<open>\<open>formRef.value?.resetFields()\<close>: nothing happens while the form is not mounted.\<close>

definition resetForm :: "EditDialog \<Rightarrow> EditDialog" where
  "resetForm d = (case formRef d of None \<Rightarrow> d | Some fi \<Rightarrow> resetFields fi d)"

definition handleClose :: "EditDialog \<Rightarrow> EditDialog" where
  "handleClose d = resetForm (emit (UpdateVisible False) d)"

definition handleOpened :: "EditDialog \<Rightarrow> EditDialog" where
  "handleOpened d = (case formRef d of None \<Rightarrow> d | Some fi \<Rightarrow> clearValidate fi d)"

text \<open>
  \<open>handleConfirm\<close>. The promise of \<open>validate\<close> rejects when a field fails; the
  \<open>catch\<close> branch only writes to the console. On success the spread
  \<open>{ ...form.value }\<close> is a new object with the draft's fields.
\<close>

definition handleConfirm :: "EditDialog \<Rightarrow> EditDialog" where
  "handleConfirm d =
     (case formRef d of
        None \<Rightarrow> d
      | Some fi \<Rightarrow>
          if validate (draft d) = [] then
            handleClose
              (emit (Confirm (fresh d))
                 (new_object (draft d) (d\<lparr> formRef := Some (fi\<lparr> invalidFields := [] \<rparr>) \<rparr>)))
          else d\<lparr> formRef := Some (fi\<lparr> invalidFields := validate (draft d) \<rparr>) \<rparr>)"

definition handleCancel :: "EditDialog \<Rightarrow> EditDialog" where
  "handleCancel d = handleClose (emit Cancel d)"

text \<open>
  Everything that can happen to the dialog: new props from the host, a keystroke in a
  field, the two buttons, the close request of the dialog widget, and its \<open>opened\<close>
  event.
\<close>

datatype Action =
  SetProps Props | Input Edit | ClickConfirm | ClickCancel | RequestClose | Opened

fun step :: "Action \<Rightarrow> EditDialog \<Rightarrow> EditDialog" where
  "step (SetProps p) d = set_props p d"
| "step (Input e) d = input e d"
| "step ClickConfirm d = handleConfirm d"
| "step ClickCancel d = handleCancel d"
| "step RequestClose d = handleClose d"
| "step Opened d = handleOpened d"

text \<open>
  The references are well formed when the draft and the initial data are allocated and
  are two objects. The dialog keeps its draft to itself (it emits copies only), so the
  host has no reference to the draft to pass as a prop: \<open>host_props\<close>.
\<close>

definition distinct_refs :: "EditDialog \<Rightarrow> bool" where
  "distinct_refs d \<longleftrightarrow>
     form d < fresh d \<and>
     (case formData (props d) of None \<Rightarrow> True | Some a \<Rightarrow> a < fresh d \<and> a \<noteq> form d)"

definition host_props :: "Props \<Rightarrow> EditDialog \<Rightarrow> bool" where
  "host_props p d \<longleftrightarrow>
     (case formData p of None \<Rightarrow> True | Some a \<Rightarrow> a < fresh d \<and> a \<noteq> form d)"

fun host_action :: "Action \<Rightarrow> EditDialog \<Rightarrow> bool" where
  "host_action (SetProps p) d = host_props p d"
| "host_action act d = True"

text \<open>The defaults of add mode, and an object with all five fields.\<close>

definition default_form :: EditFormData where
  "default_form =
     \<lparr> categoryNameZh = Some [], categoryNameEn = Some [], sortOrder = Some 1,
       status = Some Enabled, form_id = None \<rparr>"

definition full_form :: "int \<Rightarrow> js_string \<Rightarrow> js_string \<Rightarrow> int \<Rightarrow> Status \<Rightarrow> EditFormData" where
  "full_form k zh en n st =
     \<lparr> categoryNameZh = Some zh, categoryNameEn = Some en, sortOrder = Some n,
       status = Some st, form_id = Some k \<rparr>"

text \<open>
  A dialog as the host creates it, closed, on a page whose one object so far, at
  address 0, is \<open>obj\<close>: the draft is the object of the \<open>ref\<close> call, at address 1.
\<close>

definition created :: "EditFormData \<Rightarrow> FormInstance option \<Rightarrow> EditDialog" where
  "created obj fi =
     \<lparr> heap = (\<lambda>a. if a = 0 then obj else default_form), fresh = 2,
       props = \<lparr> visible = False, formData = None, mode = Add \<rparr>,
       form = 1, formRef = fi, emitted = [] \<rparr>"

text \<open>
  A mounted form whose items captured the defaults; the props that open the dialog in edit
  mode on the object at address 0, those that open it in add mode, and those of a closed
  dialog.
\<close>

definition mounted_form :: FormInstance where
  "mounted_form =
     \<lparr> initialValues =
         \<lparr> categoryNameZh = Some [], categoryNameEn = Some [], sortOrder = Some 1,
           status = Some Enabled \<rparr>,
       invalidFields = [] \<rparr>"

definition open_edit_props :: Props where
  "open_edit_props = \<lparr> visible = True, formData = Some 0, mode = Edit \<rparr>"

definition open_add_props :: Props where
  "open_add_props = \<lparr> visible = True, formData = None, mode = Add \<rparr>"

definition closed_props :: Props where
  "closed_props = \<lparr> visible = False, formData = None, mode = Add \<rparr>"

section \<open>Facts about the numbers\<close>

lemma two_powi_less_iff: "(2::rat) powi m < 2 powi n \<longleftrightarrow> m < n"
proof
  assume "(2::rat) powi m < 2 powi n"
  show "m < n"
  proof (rule ccontr)
    assume "\<not> m < n"
    then have "(2::rat) powi n \<le> 2 powi m" by (intro power_int_increasing) simp_all
    with \<open>(2::rat) powi m < 2 powi n\<close> show False by simp
  qed
next
  assume "m < n"
  then show "(2::rat) powi m < 2 powi n" by (intro power_int_strict_increasing) simp_all
qed

lemma two_powi_le_iff: "(2::rat) powi m \<le> 2 powi n \<longleftrightarrow> m \<le> n"
  using two_powi_less_iff [of n m] by (simp add: not_less [symmetric])

lemma bitlen_powi:
  assumes "0 < a"
  shows "2 powi (bitlen a - 1) \<le> (of_int a :: rat)" and "(of_int a :: rat) < 2 powi (bitlen a)"
proof -
  from bitlen_bounds [OF assms] have lo: "2 ^ nat (bitlen a - 1) \<le> a" and hi: "a < 2 ^ nat (bitlen a)"
    by auto
  have pos: "1 \<le> bitlen a" using assms by (auto simp: bitlen_alt_def)
  have "(2::rat) powi (bitlen a - 1) = 2 ^ nat (bitlen a - 1)"
    using pos by (simp add: power_int_nonneg_exp)
  also have "\<dots> = of_int (2 ^ nat (bitlen a - 1))" by simp
  also have "\<dots> \<le> of_int a" using lo by (simp only: of_int_le_iff)
  finally show "2 powi (bitlen a - 1) \<le> (of_int a :: rat)" .
  have "(of_int a :: rat) < of_int (2 ^ nat (bitlen a))" using hi by (simp only: of_int_less_iff)
  also have "\<dots> = 2 ^ nat (bitlen a)" by simp
  also have "\<dots> = 2 powi (bitlen a)" using pos by (simp add: power_int_nonneg_exp)
  finally show "(of_int a :: rat) < 2 powi (bitlen a)" .
qed

lemma ilog2_bounds:
  assumes "x \<noteq> 0"
  shows "2 powi (ilog2 x) \<le> \<bar>x\<bar>" and "\<bar>x\<bar> < 2 powi (ilog2 x + 1)"
proof -
  obtain a b where q: "quotient_of \<bar>x\<bar> = (a, b)" by (cases "quotient_of \<bar>x\<bar>")
  then have b: "0 < b" and x: "\<bar>x\<bar> = of_int a / of_int b"
    by (auto dest: quotient_of_denom_pos quotient_of_div)
  from assms have "0 < \<bar>x\<bar>" by simp
  with x b have a: "0 < a" by (simp add: zero_less_divide_iff)
  let ?k = "bitlen a - bitlen b"
  note ba = bitlen_powi [OF a] and bb = bitlen_powi [OF b]
  have bpos: "(0::rat) < of_int b" using b by simp
  have upper: "\<bar>x\<bar> < 2 powi (?k + 1)"
  proof -
    have "of_int a < (2::rat) powi (bitlen a)" by (rule ba(2))
    also have "\<dots> = 2 powi (?k + 1) * 2 powi (bitlen b - 1)"
      by (simp add: power_int_add [symmetric])
    also have "\<dots> \<le> 2 powi (?k + 1) * of_int b"
      using bb(1) by (intro mult_left_mono) simp_all
    finally show ?thesis using bpos by (simp add: x pos_divide_less_eq)
  qed
  have lower: "2 powi (?k - 1) < \<bar>x\<bar>"
  proof -
    have "2 powi (?k - 1) * of_int b < 2 powi (?k - 1) * (2::rat) powi (bitlen b)"
      using bb(2) by (intro mult_strict_left_mono) simp_all
    also have "\<dots> = 2 powi (bitlen a - 1)"
      by (simp add: power_int_add [symmetric])
    also have "\<dots> \<le> of_int a" by (rule ba(1))
    finally show ?thesis using bpos by (simp add: x pos_less_divide_eq)
  qed
  have e: "ilog2 x = (if 2 powi ?k \<le> \<bar>x\<bar> then ?k else ?k - 1)"
    by (simp add: ilog2_def q Let_def)
  show "2 powi (ilog2 x) \<le> \<bar>x\<bar>" using lower by (simp add: e)
  show "\<bar>x\<bar> < 2 powi (ilog2 x + 1)" using upper by (auto simp: e not_le)
qed

lemma ilog2_unique:
  assumes "2 powi e \<le> \<bar>x\<bar>" and "\<bar>x\<bar> < 2 powi (e + 1)"
  shows "ilog2 x = e"
proof -
  have "(0::rat) < 2 powi e" by simp
  with assms(1) have "0 < \<bar>x\<bar>" by linarith
  then have nz: "x \<noteq> 0" by simp
  note b = ilog2_bounds [OF nz]
  have "2 powi e < (2::rat) powi (ilog2 x + 1)" using assms(1) b(2) by simp
  then have "e < ilog2 x + 1" by (simp only: two_powi_less_iff)
  moreover have "2 powi (ilog2 x) < (2::rat) powi (e + 1)" using assms(2) b(1) by simp
  then have "ilog2 x < e + 1" by (simp only: two_powi_less_iff)
  ultimately show ?thesis by simp
qed


lemma round_half_even_of_int [simp]: "round_half_even (of_int n) = n"
  by (simp add: round_half_even_def)

text \<open>A number with a significand of at most 53 bits and an exponent in range is a double.\<close>

lemma fl_exact:
  assumes m: "\<bar>m\<bar> \<le> 2 ^ 53" and k: "- 1074 \<le> k"
  shows "fl (of_int m * 2 powi k) = of_int m * 2 powi k"
proof (cases "m = 0")
  case True
  then show ?thesis by (simp add: fl_def)
next
  case False
  let ?x = "of_int m * (2::rat) powi k"
  have nz: "?x \<noteq> 0" using False by simp
  let ?e = "max (ilog2 ?x) (- 1022) - 52"
  have "2 powi (ilog2 ?x) \<le> \<bar>?x\<bar>" by (rule ilog2_bounds(1) [OF nz])
  also have "\<bar>?x\<bar> = of_int \<bar>m\<bar> * 2 powi k" by (simp add: abs_mult)
  also have "\<dots> \<le> of_int (2 ^ 53) * 2 powi k"
    using m by (intro mult_right_mono) (simp_all only: of_int_le_iff zero_le_power_int zero_le_numeral)
  also have "\<dots> = 2 powi (53 + k)" by (simp add: power_int_add)
  finally have "ilog2 ?x \<le> 53 + k" by (simp only: two_powi_le_iff)
  moreover
  have "ilog2 ?x \<noteq> 53 + k \<or> \<bar>m\<bar> = 2 ^ 53"
  proof (rule ccontr)
    assume "\<not> ?thesis"
    then have eq: "ilog2 ?x = 53 + k" and lt: "\<bar>m\<bar> < 2 ^ 53" using m by auto
    have "\<bar>?x\<bar> = of_int \<bar>m\<bar> * 2 powi k" by (simp add: abs_mult)
    also have "\<dots> < of_int (2 ^ 53) * 2 powi k"
      using lt by (intro mult_strict_right_mono) (simp_all only: of_int_less_iff zero_less_power_int zero_less_numeral)
    also have "\<dots> = 2 powi (53 + k)" by (simp add: power_int_add)
    finally have "\<bar>?x\<bar> < 2 powi (ilog2 ?x)" by (simp only: eq)
    with ilog2_bounds(1) [OF nz] show False by simp
  qed
  ultimately have small: "ilog2 ?x \<le> 52 + k \<or> \<bar>m\<bar> = 2 ^ 53" by auto
  show ?thesis
  proof (cases "\<bar>m\<bar> = 2 ^ 53")
    case True
    then have mm: "m = 2 ^ 53 \<or> m = - (2 ^ 53)" by auto
    have il: "ilog2 ?x = 53 + k"
    proof (rule ilog2_unique)
      have ax: "\<bar>?x\<bar> = 2 powi (53 + k)" using mm by (auto simp: abs_mult power_int_add)
      show "2 powi (53 + k) \<le> \<bar>?x\<bar>" using ax by simp
      show "\<bar>?x\<bar> < 2 powi (53 + k + 1)" unfolding ax by (simp only: two_powi_less_iff)
    qed
    have e: "?e = 1 + k" using il k by simp
    have "?x / 2 powi (1 + k) = of_int (m div 2 ^ 53) * 2 powi (52::int)"
      using mm by (auto simp: power_int_add)
    also have "\<dots> = of_int ((m div 2 ^ 53) * 2 ^ 52)" by simp
    finally have q: "?x / 2 powi (1 + k) = of_int ((m div 2 ^ 53) * 2 ^ 52)" .
    have "fl ?x = of_int ((m div 2 ^ 53) * 2 ^ 52) * 2 powi (1 + k)"
      using nz unfolding fl_def ulp_def e q by (simp only: round_half_even_of_int if_False)
    also have "\<dots> = ?x" using mm by (auto simp: power_int_add)
    finally show ?thesis .
  next
    case False
    with small have le: "ilog2 ?x \<le> 52 + k" by simp
    then have ek: "?e \<le> k" using k by simp
    then obtain d where d: "k = ?e + int d" by (metis zle_iff_zadd)
    have "?x / 2 powi ?e = of_int m * (2 powi (?e + int d) / 2 powi ?e)"
      using d by simp
    also have "2 powi (?e + int d) / (2::rat) powi ?e = 2 ^ d"
      by (simp add: power_int_add)
    also have "of_int m * (2::rat) ^ d = of_int (m * 2 ^ d)" by simp
    finally have q: "?x / 2 powi ?e = of_int (m * 2 ^ d)" .
    have "fl ?x = of_int (m * 2 ^ d) * 2 powi ?e"
      using nz unfolding fl_def ulp_def q by (simp only: round_half_even_of_int if_False)
    also have "\<dots> = of_int m * (2 ^ d * 2 powi ?e)" by simp
    also have "2 ^ d * (2::rat) powi ?e = 2 powi (?e + int d)"
      by (simp add: power_int_add)
    also have "\<dots> = 2 powi k" using d by simp
    finally show ?thesis .
  qed
qed

lemma fl_of_int: "\<bar>n\<bar> \<le> 2 ^ 53 \<Longrightarrow> fl (of_int n) = of_int n"
  using fl_exact [of n 0] by simp

lemma fl_half: "\<bar>n\<bar> \<le> 2 ^ 53 \<Longrightarrow> fl (of_int n / 2) = of_int n / 2"
  using fl_exact [of n "- 1"] by (simp add: power_int_minus_divide)

lemma fl_Ints: "x \<in> \<int> \<Longrightarrow> \<bar>x\<bar> \<le> 2 ^ 53 \<Longrightarrow> fl x = x"
proof -
  assume "x \<in> \<int>" and b: "\<bar>x\<bar> \<le> 2 ^ 53"
  then obtain n where n: "x = of_int n" by (auto elim: Ints_cases)
  have "(of_int \<bar>n\<bar> :: rat) \<le> of_int (2 ^ 53)" using b n by simp
  then have "\<bar>n\<bar> \<le> 2 ^ 53" by (simp only: of_int_le_iff)
  then show ?thesis unfolding n by (rule fl_of_int)
qed

text \<open>Counting a page number down by one is exact up to \<open>2 ^ 53\<close>.\<close>

lemma fl_decrement:
  assumes dbl: "fl x = x" and gt: "1 < x" and le: "x \<le> 2 ^ 53"
  shows "fl (x - 1) = x - 1"
proof -
  let ?e = "ilog2 x"
  have nz: "x \<noteq> 0" using gt by simp
  have ax: "\<bar>x\<bar> = x" using gt by simp
  note b = ilog2_bounds [OF nz, unfolded ax]
  have "(2::rat) powi 0 < 2 powi (?e + 1)" using gt b(2) by simp
  then have "0 < ?e + 1" by (simp only: two_powi_less_iff)
  then have e0: "0 \<le> ?e" by simp
  have "(2::rat) powi ?e \<le> 2 powi 53" using b(1) le by simp
  then have e53: "?e \<le> 53" by (simp only: two_powi_le_iff)
  show ?thesis
  proof (cases "?e = 53")
    case True
    with b(1) le have "x = 2 ^ 53" by simp
    then have x1: "x - 1 = of_int (2 ^ 53 - 1)" by simp
    have "fl (of_int (2 ^ 53 - 1)) = of_int (2 ^ 53 - 1)" by (rule fl_of_int) simp
    then show ?thesis by (simp only: x1)
  next
    case False
    with e53 have e52: "?e \<le> 52" by simp
    define j where "j = nat (52 - ?e)"
    define n where "n = round_half_even (x / ulp x)"
    have u: "ulp x = 2 powi (?e - 52)" using e0 by (simp add: ulp_def)
    have upos: "0 < ulp x" unfolding u by simp
    have xn: "x = of_int n * ulp x" using dbl nz by (simp add: fl_def n_def)
    have one: "(1::rat) = of_int (2 ^ j) * ulp x"
    proof -
      have "(2::rat) ^ j = 2 powi (52 - ?e)" using e52 by (simp add: j_def power_int_nonneg_exp)
      then have "of_int (2 ^ j) * ulp x = 2 powi (52 - ?e) * 2 powi (?e - 52)" by (simp add: u)
      also have "\<dots> = 1" by (simp add: power_int_add [symmetric])
      finally show ?thesis by simp
    qed
    have diff: "x - 1 = of_int (n - 2 ^ j) * 2 powi (?e - 52)"
    proof -
      have "x - 1 = of_int n * ulp x - of_int (2 ^ j) * ulp x" using xn one by simp
      also have "\<dots> = of_int (n - 2 ^ j) * ulp x" by (simp add: algebra_simps)
      finally show ?thesis by (simp only: u)
    qed
    have lo: "2 ^ j < n"
    proof -
      have "of_int (2 ^ j) * ulp x < of_int n * ulp x" using gt xn one by simp
      then have "(of_int (2 ^ j) :: rat) < of_int n" using upos by (simp only: mult_less_cancel_right_pos)
      then show ?thesis by (simp only: of_int_less_iff)
    qed
    have hi: "n < 2 ^ 53"
    proof -
      have "?e + 1 = 53 + (?e - 52)" by simp
      then have "(2::rat) powi (?e + 1) = 2 powi (53 + (?e - 52))" by (simp only:)
      also have "\<dots> = 2 powi 53 * 2 powi (?e - 52)" by (rule power_int_add) simp
      finally have p: "(2::rat) powi (?e + 1) = of_int (2 ^ 53) * ulp x" by (simp add: u)
      have "of_int n * ulp x < 2 powi (?e + 1)" using b(2) xn by simp
      then have "of_int n * ulp x < of_int (2 ^ 53) * ulp x" by (simp only: p)
      then have "(of_int n :: rat) < of_int (2 ^ 53)"
        using upos by (simp only: mult_less_cancel_right_pos)
      then show ?thesis by (simp only: of_int_less_iff)
    qed
    have "(0::int) < 2 ^ j" by simp
    with lo hi have "\<bar>n - 2 ^ j\<bar> \<le> 2 ^ 53" by linarith
    moreover have "- 1074 \<le> ?e - 52" using e0 by simp
    ultimately show ?thesis unfolding diff by (rule fl_exact)
  qed
qed

lemma fl_2_53_plus_1: "fl 9007199254740993 = 9007199254740992"
proof -
  have il: "ilog2 9007199254740993 = 53"
    by (rule ilog2_unique) simp_all
  have fr: "\<lfloor>9007199254740993 / (2::rat)\<rfloor> = 4503599627370496"
    by (rule floor_unique) simp_all
  show ?thesis
    by (simp add: fl_def ulp_def il round_half_even_def fr)
qed

section \<open>Arithmetic and list facts\<close>

text \<open>
  The integer \<open>ceil_div\<close> is the ceiling of the quotient of the reals. (In HOL the
  equation also holds at \<open>b = 0\<close>, where both sides are 0; JavaScript's quotient is
  not a number there, so the theorems below use it for a page size other than 0 only.)
\<close>

lemma ceil_div_ceiling:
  "ceil_div a b = \<lceil>real_of_int a / real_of_int b\<rceil>"
  unfolding ceil_div_def by (simp only: ceiling_divide_eq_div)

lemma findIndexFrom_takeWhile:
  "findIndexFrom P xs k =
     (if \<exists>x \<in> set xs. P x then k + int (length (takeWhile (\<lambda>x. \<not> P x) xs)) else - 1)"
  by (induction xs arbitrary: k) auto

lemma findIndex_takeWhile:
  "findIndex P xs =
     (if \<exists>x \<in> set xs. P x then int (length (takeWhile (\<lambda>x. \<not> P x) xs)) else - 1)"
  by (simp add: findIndex_def findIndexFrom_takeWhile)

lemma findIndex_found_iff: "findIndex P xs > - 1 \<longleftrightarrow> (\<exists>x \<in> set xs. P x)"
  by (simp add: findIndex_takeWhile)

lemma findIndex_found:
  assumes "findIndex P xs > - 1"
  shows "nat (findIndex P xs) < length xs"
    and "P (xs ! nat (findIndex P xs))"
    and "\<forall>j < nat (findIndex P xs). \<not> P (xs ! j)"
proof -
  let ?n = "length (takeWhile (\<lambda>x. \<not> P x) xs)"
  from assms have ex: "\<exists>x \<in> set xs. P x" by (simp add: findIndex_found_iff)
  then have idx: "nat (findIndex P xs) = ?n" by (simp add: findIndex_takeWhile)
  from ex have lt: "?n < length xs"
    by (induction xs) auto
  show "nat (findIndex P xs) < length xs" using idx lt by simp
  show "P (xs ! nat (findIndex P xs))"
    using nth_length_takeWhile [OF lt] idx by simp
  show "\<forall>j < nat (findIndex P xs). \<not> P (xs ! j)"
  proof (intro allI impI)
    fix j assume "j < nat (findIndex P xs)"
    then have j: "j < ?n" using idx by simp
    then have "takeWhile (\<lambda>x. \<not> P x) xs ! j = xs ! j" by (rule takeWhile_nth)
    moreover have "takeWhile (\<lambda>x. \<not> P x) xs ! j \<in> set (takeWhile (\<lambda>x. \<not> P x) xs)"
      using j by (rule nth_mem)
    ultimately show "\<not> P (xs ! j)" by (auto dest: set_takeWhileD)
  qed
qed

lemma math_max0_Max: "math_max0 ids = Max (insert 0 (set ids))"
proof (induction ids)
  case Nil
  show ?case by (simp add: math_max0_def)
next
  case (Cons a ids)
  have "Max (insert 0 (set (a # ids))) = Max (insert a (insert 0 (set ids)))"
    by (simp add: insert_commute)
  also have "\<dots> = max a (Max (insert 0 (set ids)))"
    by (rule Max_insert) simp_all
  finally show ?case using Cons by (simp add: math_max0_def)
qed

lemma length_splice1: "i < length xs \<Longrightarrow> length (splice1 i xs) = length xs - 1"
  by (simp add: splice1_def)

lemma to_integer_of_int [simp]: "to_integer (of_int n) = n"
  by (simp add: to_integer_def)

section \<open>Claims about the listing screen\<close>

lemma findIndex_id_defined:
  "findIndex (\<lambda>item. Some (item_id item) = form_id data) xs > - 1 \<Longrightarrow> form_id data \<noteq> None"
  by (cases "form_id data") (auto simp: findIndex_found_iff)

subsection \<open>C1: the pagination invariant\<close>

text \<open>
  C1 says that \<open>currentPage \<le> ceil(total / pageSize)\<close> in every state of the screen
  with \<open>total > 0\<close>. The code does not keep it. On the initial screen (eight rows, two per
  page, four pages) the jump input takes \<open>3.5\<close>: it lies between 1 and 4, so
  \<open>handleJump\<close> makes it the current page. Deleting the rows 2699 and 2369 then leaves
  six rows and three pages; neither delete steps back, since the slice from row 5 on is
  not empty, and the current page is still 3.5.
\<close>

theorem half_page_breaks_invariant:
  "currentPage (jumped_to_half_page m) = 7 / 2
   \<and> map item_id (tableData (half_page_after_deletes m)) = [2356, 2645, 2632, 2630, 2662, 2586]
   \<and> pageSize (half_page_after_deletes m) = 2
   \<and> \<lceil>real_of_int (total (half_page_after_deletes m))
        / real_of_int (pageSize (half_page_after_deletes m))\<rceil> = 3
   \<and> currentPage (half_page_after_deletes m) = 7 / 2
   \<and> 0 < total (half_page_after_deletes m)
   \<and> \<not> currentPage (half_page_after_deletes m)
         \<le> of_int \<lceil>real_of_int (total (half_page_after_deletes m))
                    / real_of_int (pageSize (half_page_after_deletes m))\<rceil>"
proof -
  have f: "fl (5 / 2) = 5 / 2" "fl 5 = 5" "fl 7 = 7"
    using fl_half [of 5] fl_of_int [of 5] fl_of_int [of 7] by simp_all
  have j: "jumped_to_half_page m = (init_state m)\<lparr> jumpPage := 7 / 2, currentPage := 7 / 2 \<rparr>"
    by (simp add: jumped_to_half_page_def handleJump_def init_state_def total_def ceil_div_def)
  have d1: "handleDelete True (mock_row 2699 4 Enabled) (jumped_to_half_page m)
      = (init_state m)\<lparr> jumpPage := 7 / 2, currentPage := 7 / 2,
           tableData := [mock_row 2356 1 Enabled, mock_row 2645 2 Enabled,
             mock_row 2632 3 Disabled, mock_row 2630 6 Enabled, mock_row 2662 5 Enabled,
             mock_row 2369 9 Enabled, mock_row 2586 11 Enabled],
           messages := [Success DeleteDone] \<rparr>"
    unfolding j
    by (simp add: handleDelete_def init_state_def mock_row_def findIndex_def splice1_def
          paginatedData_def slice_def relative_index_def to_integer_def Let_def f)
  have d2: "half_page_after_deletes m
      = (init_state m)\<lparr> jumpPage := 7 / 2, currentPage := 7 / 2,
           tableData := [mock_row 2356 1 Enabled, mock_row 2645 2 Enabled,
             mock_row 2632 3 Disabled, mock_row 2630 6 Enabled, mock_row 2662 5 Enabled,
             mock_row 2586 11 Enabled],
           messages := [Success DeleteDone, Success DeleteDone] \<rparr>"
    unfolding half_page_after_deletes_def d1
    by (simp add: handleDelete_def init_state_def mock_row_def findIndex_def splice1_def
          paginatedData_def slice_def relative_index_def to_integer_def Let_def f)
  show ?thesis
    unfolding d2 j by (simp add: init_state_def total_def mock_row_def)
qed

subsection \<open>C2: add-commit\<close>

text \<open>
  The claim, as stated, is about every collection. Two kinds of collection are outside it.
  The ids are doubles: when the largest id is \<open>2 ^ 53\<close>, the sum with 1 rounds back to
  \<open>2 ^ 53\<close> and the new record gets the id that is already there, not the next one. And
  the ids are spread into the arguments of one call: on an engine that accepts 65536
  arguments, a collection of 65536 records makes \<open>Math.max\<close> throw, and nothing is
  appended.
\<close>

theorem add_commit_limits_counterexample:
  "map item_id (tableData (handleDialogConfirm (sample_draft None [88])
       (showing [bare_row 9007199254740992] 2 1 Add)))
     = [9007199254740992, 9007199254740992]
   \<and> Max (insert 0 (item_id ` set [bare_row 9007199254740992])) + 1 = 9007199254740993
   \<and> tableData (handleDialogConfirm (sample_draft None [88])
       (showing (replicate 65536 (bare_row 1)) 2 1 Add))
     = replicate 65536 (bare_row 1)
   \<and> uncaught (handleDialogConfirm (sample_draft None [88])
       (showing (replicate 65536 (bare_row 1)) 2 1 Add))
     = [RangeError]"
proof -
  have "map item_id (tableData (handleDialogConfirm (sample_draft None [88])
       (showing [bare_row 9007199254740992] 2 1 Add)))
     = [9007199254740992, 9007199254740992]"
    by (simp add: handleDialogConfirm_def add_handler_def showing_def bare_row_def with_id_def
          math_max0_def Let_def fl_2_53_plus_1 to_integer_def)
  moreover have "Max (insert 0 (item_id ` set [bare_row 9007199254740992])) + 1
      = 9007199254740993"
    by (simp add: bare_row_def)
  moreover have "handleDialogConfirm (sample_draft None [88])
       (showing (replicate 65536 (bare_row 1)) 2 1 Add)
     = (showing (replicate 65536 (bare_row 1)) 2 1 Add)\<lparr> uncaught := [RangeError] \<rparr>"
    by (simp add: handleDialogConfirm_def add_handler_def showing_def)
  ultimately show ?thesis by (simp add: showing_def)
qed

text \<open>
  C2, amended. In add mode, for a collection that is smaller than the number of arguments
  the engine accepts and whose ids are below \<open>2 ^ 53\<close>, \<open>handleDialogConfirm\<close> appends
  one record, made of the draft's fields and the id \<open>max(existing ids, 0) + 1\<close>, and then
  sets \<open>currentPage\<close> and the jump target to \<open>ceil(newTotal / pageSize)\<close>, where
  \<open>newTotal\<close> counts the appended record. The page size is not 0 (see \<open>ceil_div\<close>).
\<close>

theorem add_commit:
  assumes "dialogMode s = Add" and "pageSize s \<noteq> 0"
    and "length (tableData s) < maxArguments s"
    and "Max (insert 0 (item_id ` set (tableData s))) < 2 ^ 53"
  shows "tableData (handleDialogConfirm data s) =
           tableData s @
           [\<lparr> categoryNameZh = categoryNameZh data, categoryNameEn = categoryNameEn data,
              sortOrder = sortOrder data, status = status data,
              item_id = Max (insert 0 (item_id ` set (tableData s))) + 1 \<rparr>]
       \<and> item_id (last (tableData (handleDialogConfirm data s)))
           = Max (insert 0 (item_id ` set (tableData s))) + 1
       \<and> currentPage (handleDialogConfirm data s) =
           of_int \<lceil>real (length (tableData s) + 1) / real_of_int (pageSize s)\<rceil>
       \<and> jumpPage (handleDialogConfirm data s) = currentPage (handleDialogConfirm data s)
       \<and> pageSize (handleDialogConfirm data s) = pageSize s"
proof -
  let ?m = "Max (insert 0 (item_id ` set (tableData s)))"
  have m0: "0 \<le> ?m" by (rule Max_ge) simp_all
  have mm: "math_max0 (map item_id (tableData s)) = ?m" by (simp add: math_max0_Max)
  have "\<bar>?m + 1\<bar> \<le> 2 ^ 53" using m0 assms(4) by linarith
  then have "fl (of_int (?m + 1)) = of_int (?m + 1)" by (rule fl_of_int)
  then have "to_integer (fl (of_int (?m + 1))) = ?m + 1"
    by (simp only: to_integer_of_int)
  then have next_id: "to_integer (fl (of_int ?m + 1)) = ?m + 1"
    by simp
  show ?thesis
    using assms(1,3)
    by (simp add: handleDialogConfirm_def add_handler_def Let_def mm next_id with_id_def
          ceil_div_ceiling total_def)
qed

theorem add_commit_witness:
  "dialogMode (showing [bare_row 2, bare_row 5] 2 1 Add) = Add
   \<and> pageSize (showing [bare_row 2, bare_row 5] 2 1 Add) \<noteq> 0
   \<and> length (tableData (showing [bare_row 2, bare_row 5] 2 1 Add))
       < maxArguments (showing [bare_row 2, bare_row 5] 2 1 Add)
   \<and> tableData (handleDialogConfirm (sample_draft None [88]) (showing [bare_row 2, bare_row 5] 2 1 Add))
       = [bare_row 2, bare_row 5,
          \<lparr> categoryNameZh = Some [88], categoryNameEn = Some flight_en, sortOrder = Some 1,
            status = Some Enabled, item_id = 6 \<rparr>]
   \<and> currentPage (handleDialogConfirm (sample_draft None [88]) (showing [bare_row 2, bare_row 5] 2 1 Add)) = 2
   \<and> jumpPage (handleDialogConfirm (sample_draft None [88]) (showing [bare_row 2, bare_row 5] 2 1 Add)) = 2
   \<and> tableData (handleDialogConfirm (sample_draft None [88]) (showing [] 2 1 Add))
       = [\<lparr> categoryNameZh = Some [88], categoryNameEn = Some flight_en, sortOrder = Some 1,
            status = Some Enabled, item_id = 1 \<rparr>]
   \<and> currentPage (handleDialogConfirm (sample_draft None [88]) (showing [] 2 1 Add)) = 1"
proof -
  let ?s = "showing [bare_row 2, bare_row 5] 2 1 Add" and ?e = "showing [] 2 1 Add"
  have m: "dialogMode ?s = Add" "dialogMode ?e = Add" by (simp_all add: showing_def)
  have p: "pageSize ?s \<noteq> 0" "pageSize ?e \<noteq> 0" by (simp_all add: showing_def)
  have l: "length (tableData ?s) < maxArguments ?s" "length (tableData ?e) < maxArguments ?e"
    by (simp_all add: showing_def)
  have i: "Max (insert 0 (item_id ` set (tableData ?s))) < 2 ^ 53"
          "Max (insert 0 (item_id ` set (tableData ?e))) < 2 ^ 53"
    by (simp_all add: showing_def bare_row_def)
  have half: "\<lceil>1 / (2::real)\<rceil> = 1"
    by (rule ceiling_unique) simp_all
  show ?thesis
    using add_commit [OF m(1) p(1) l(1) i(1), of "sample_draft None [88]"]
          add_commit [OF m(2) p(2) l(2) i(2), of "sample_draft None [88]"]
    by (simp add: showing_def bare_row_def sample_draft_def half)
qed

subsection \<open>C3: edit-commit on a record that is there\<close>

text \<open>
  C3. In edit mode, when the collection holds a record with the draft's id,
  \<open>handleDialogConfirm\<close> replaces the first such record, at its index \<open>i\<close>, by the
  draft's fields under the same id. Every other index holds what it held, the length and
  the order of the ids are the same.
\<close>

theorem edit_commit_replaces_one:
  assumes "dialogMode s = Edit" and "form_id data = Some k"
    and "\<exists>item \<in> set (tableData s). item_id item = k"
  shows "\<exists>i < length (tableData s).
           item_id (tableData s ! i) = k
         \<and> (\<forall>j < i. item_id (tableData s ! j) \<noteq> k)
         \<and> tableData (handleDialogConfirm data s) = (tableData s)[i := with_id data k]
         \<and> item_id (tableData (handleDialogConfirm data s) ! i) = k
         \<and> (\<forall>j < length (tableData s). j \<noteq> i \<longrightarrow>
               tableData (handleDialogConfirm data s) ! j = tableData s ! j)
         \<and> length (tableData (handleDialogConfirm data s)) = length (tableData s)
         \<and> map item_id (tableData (handleDialogConfirm data s)) = map item_id (tableData s)"
proof -
  let ?P = "\<lambda>item. Some (item_id item) = form_id data"
  let ?i = "nat (findIndex ?P (tableData s))"
  have idx: "findIndex ?P (tableData s) > - 1"
    using assms(2,3) by (auto simp: findIndex_found_iff)
  note f = findIndex_found [OF idx]
  have upd: "tableData (handleDialogConfirm data s) = (tableData s)[?i := with_id data k]"
    using assms(1,2) idx by (simp add: handleDialogConfirm_def edit_handler_def Let_def)
  have idk: "item_id (tableData s ! ?i) = k" using f(2) assms(2) by simp
  have before: "\<forall>j < ?i. item_id (tableData s ! j) \<noteq> k" using f(3) assms(2) by auto
  have ids: "map item_id ((tableData s)[?i := with_id data k]) = map item_id (tableData s)"
    using f(1) idk by (simp add: map_update with_id_def list_update_same_conv)
  show ?thesis
    using f(1) idk before upd ids by (intro exI [of _ ?i]) (simp add: with_id_def)
qed

theorem edit_commit_replaces_one_witness:
  "dialogMode (showing [bare_row 1, bare_row 2, bare_row 3] 2 1 Edit) = Edit
   \<and> form_id (sample_draft (Some 2) [88]) = Some 2
   \<and> (\<exists>item \<in> set (tableData (showing [bare_row 1, bare_row 2, bare_row 3] 2 1 Edit)).
         item_id item = 2)
   \<and> tableData (handleDialogConfirm (sample_draft (Some 2) [88])
                   (showing [bare_row 1, bare_row 2, bare_row 3] 2 1 Edit))
       = [bare_row 1, with_id (sample_draft (Some 2) [88]) 2, bare_row 3]"
proof -
  let ?s = "showing [bare_row 1, bare_row 2, bare_row 3] 2 1 Edit"
  let ?d = "sample_draft (Some 2) [88]"
  have m: "dialogMode ?s = Edit" by (simp add: showing_def)
  have k: "form_id ?d = Some 2" by (simp add: sample_draft_def)
  have ex: "\<exists>item \<in> set (tableData ?s). item_id item = 2"
    by (simp add: showing_def bare_row_def)
  from edit_commit_replaces_one [OF m k ex] obtain i where
    i: "i < length (tableData ?s)" "item_id (tableData ?s ! i) = 2"
       "tableData (handleDialogConfirm ?d ?s) = (tableData ?s)[i := with_id ?d 2]"
    by blast
  have "i = 1"
  proof (rule ccontr)
    assume "i \<noteq> 1"
    with i(1) have "i = 0 \<or> i = 2" by (auto simp: showing_def)
    with i(2) show False by (auto simp: showing_def bare_row_def)
  qed
  with i(3) have "tableData (handleDialogConfirm ?d ?s) = [bare_row 1, with_id ?d 2, bare_row 3]"
    by (simp add: showing_def)
  then show ?thesis using m k ex by simp
qed

subsection \<open>C4: edit-commit on a record that is gone\<close>

text \<open>
  C4. In edit mode, when no record of the collection has the draft's id (a draft without
  an id included), \<open>handleDialogConfirm\<close> reports an error and changes nothing else:
  the collection, the pagination and the dialog refs are as they were.
\<close>

theorem edit_commit_missing:
  assumes "dialogMode s = Edit"
    and "\<forall>item \<in> set (tableData s). Some (item_id item) \<noteq> form_id data"
  shows "handleDialogConfirm data s = s\<lparr> messages := messages s @ [Error EditTargetMissing] \<rparr>"
proof -
  have "\<not> findIndex (\<lambda>item. Some (item_id item) = form_id data) (tableData s) > - 1"
    using assms(2) by (simp add: findIndex_found_iff)
  then show ?thesis using assms(1)
    by (simp add: handleDialogConfirm_def edit_handler_def Let_def)
qed

theorem edit_commit_missing_witness:
  "dialogMode (showing [bare_row 1, bare_row 3] 2 1 Edit) = Edit
   \<and> map item_id (tableData (showing [bare_row 1, bare_row 3] 2 1 Edit)) = [1, 3]
   \<and> form_id (sample_draft (Some 2) [88]) = Some 2
   \<and> handleDialogConfirm (sample_draft (Some 2) [88]) (showing [bare_row 1, bare_row 3] 2 1 Edit)
       = (showing [bare_row 1, bare_row 3] 2 1 Edit)\<lparr> messages := [Error EditTargetMissing] \<rparr>"
proof -
  let ?s = "showing [bare_row 1, bare_row 3] 2 1 Edit"
  have m: "dialogMode ?s = Edit" by (simp add: showing_def)
  have no: "\<forall>item \<in> set (tableData ?s). Some (item_id item) \<noteq> form_id (sample_draft (Some 2) [88])"
    by (simp add: showing_def bare_row_def sample_draft_def)
  show ?thesis
    using edit_commit_missing [OF m no] m
    by (simp add: showing_def bare_row_def sample_draft_def)
qed

subsection \<open>C5: a delete that empties the current page\<close>

text \<open>
  C5. After a confirmed delete has removed a record, if the slice of the current page in
  the remaining collection is empty and \<open>currentPage > 1\<close>, then \<open>currentPage\<close> is
  counted down by one and the jump target has the same value. The subtraction is the
  engine's; it is exactly one less for every page number up to \<open>2 ^ 53\<close>. The instance
  after it is the specification's example: three records, two per page, the third deleted
  on page 2.
\<close>

theorem delete_steps_back:
  assumes found: "\<exists>item \<in> set (tableData s). item_id item = item_id row"
    and empty: "paginatedData (s\<lparr> tableData := tableData (handleDelete True row s) \<rparr>) = []"
    and later: "currentPage s > 1"
  shows "currentPage (handleDelete True row s) = fl (currentPage s - 1)
       \<and> (fl (currentPage s) = currentPage s \<and> currentPage s \<le> 2 ^ 53 \<longrightarrow>
            currentPage (handleDelete True row s) = currentPage s - 1)
       \<and> jumpPage (handleDelete True row s) = currentPage (handleDelete True row s)
       \<and> length (tableData (handleDelete True row s)) = length (tableData s) - 1"
proof -
  let ?P = "\<lambda>item. item_id item = item_id row"
  let ?rest = "splice1 (nat (findIndex ?P (tableData s))) (tableData s)"
  have idx: "findIndex ?P (tableData s) > - 1"
    using found by (simp add: findIndex_found_iff)
  have rest: "tableData (handleDelete True row s) = ?rest"
    using idx by (simp add: handleDelete_def Let_def)
  have len: "length ?rest = length (tableData s) - 1"
    using findIndex_found(1) [OF idx] by (rule length_splice1)
  have page: "paginatedData (s\<lparr> tableData := ?rest, messages := messages s @ [Success DeleteDone] \<rparr>)
      = paginatedData (s\<lparr> tableData := ?rest \<rparr>)"
    by (simp add: paginatedData_def)
  have stepped: "handleDelete True row s
      = s\<lparr> tableData := ?rest, messages := messages s @ [Success DeleteDone],
            currentPage := fl (currentPage s - 1), jumpPage := fl (currentPage s - 1) \<rparr>"
    using idx empty later unfolding rest
    by (simp add: handleDelete_def Let_def page)
  have exact: "fl (currentPage s - 1) = currentPage s - 1"
    if "fl (currentPage s) = currentPage s \<and> currentPage s \<le> 2 ^ 53"
    using that later by (intro fl_decrement) simp_all
  show ?thesis
    unfolding stepped using len exact by simp
qed

theorem delete_steps_back_witness:
  "(\<exists>item \<in> set (tableData (showing [bare_row 1, bare_row 2, bare_row 3] 2 2 Add)).
       item_id item = item_id (bare_row 3))
   \<and> paginatedData (showing [bare_row 1, bare_row 2, bare_row 3] 2 1 Add) = [bare_row 1, bare_row 2]
   \<and> paginatedData (showing [bare_row 1, bare_row 2, bare_row 3] 2 2 Add) = [bare_row 3]
   \<and> paginatedData (showing [bare_row 1, bare_row 2] 2 2 Add) = []
   \<and> tableData (handleDelete True (bare_row 3) (showing [bare_row 1, bare_row 2, bare_row 3] 2 2 Add))
       = [bare_row 1, bare_row 2]
   \<and> currentPage (handleDelete True (bare_row 3) (showing [bare_row 1, bare_row 2, bare_row 3] 2 2 Add)) = 1
   \<and> jumpPage (handleDelete True (bare_row 3) (showing [bare_row 1, bare_row 2, bare_row 3] 2 2 Add)) = 1"
proof -
  let ?s = "showing [bare_row 1, bare_row 2, bare_row 3] 2 2 Add"
  have f: "fl 0 = 0" "fl 1 = 1" "fl 2 = 2" "fl 4 = 4"
    using fl_of_int [of 0] fl_of_int [of 1] fl_of_int [of 2] fl_of_int [of 4] by simp_all
  have pages: "paginatedData (showing [bare_row 1, bare_row 2, bare_row 3] 2 1 Add)
        = [bare_row 1, bare_row 2]"
      "paginatedData ?s = [bare_row 3]"
      "paginatedData (showing [bare_row 1, bare_row 2] 2 2 Add) = []"
    by (simp_all add: showing_def paginatedData_def slice_def relative_index_def
          to_integer_def Let_def f)
  have rest: "tableData (handleDelete True (bare_row 3) ?s) = [bare_row 1, bare_row 2]"
    by (simp add: handleDelete_def showing_def bare_row_def findIndex_def splice1_def Let_def)
  have h1: "\<exists>item \<in> set (tableData ?s). item_id item = item_id (bare_row 3)"
    by (simp add: showing_def)
  have h2: "paginatedData (?s\<lparr> tableData := tableData (handleDelete True (bare_row 3) ?s) \<rparr>) = []"
    unfolding rest using pages(3) by (simp add: showing_def)
  have h3: "currentPage ?s > 1"
    by (simp add: showing_def)
  have dbl: "fl (currentPage ?s) = currentPage ?s \<and> currentPage ?s \<le> 2 ^ 53"
    by (simp add: showing_def f)
  from delete_steps_back [OF h1 h2 h3] dbl
  have "currentPage (handleDelete True (bare_row 3) ?s) = currentPage ?s - 1"
    and "jumpPage (handleDelete True (bare_row 3) ?s) = currentPage (handleDelete True (bare_row 3) ?s)"
    by blast+
  then show ?thesis
    using h1 rest pages by (simp add: showing_def)
qed

subsection \<open>C8: the explicit jump\<close>

text \<open>
  C8. \<open>handleJump\<close> moves \<open>currentPage\<close> to the jump target when the target, whole
  or not, lies in \<open>[1, ceil(total / pageSize)]\<close> and leaves the state as it is for every
  other target; an empty collection has 0 pages, so no target is accepted. The page size
  is not 0.
\<close>

theorem handleJump_range:
  assumes "pageSize s \<noteq> 0"
  shows "(1 \<le> jumpPage s
            \<and> jumpPage s \<le> of_int \<lceil>real_of_int (total s) / real_of_int (pageSize s)\<rceil>
            \<longrightarrow> handleJump s = s\<lparr> currentPage := jumpPage s \<rparr>)
       \<and> (\<not> (1 \<le> jumpPage s
               \<and> jumpPage s \<le> of_int \<lceil>real_of_int (total s) / real_of_int (pageSize s)\<rceil>)
            \<longrightarrow> handleJump s = s)
       \<and> (tableData s = [] \<longrightarrow> \<lceil>real_of_int (total s) / real_of_int (pageSize s)\<rceil> = 0 \<and> handleJump s = s)"
  by (auto simp: handleJump_def ceil_div_ceiling total_def)

theorem handleJump_range_witness:
  "pageSize (showing [bare_row 1, bare_row 2, bare_row 3] 2 1 Add) \<noteq> 0
   \<and> handleJump ((showing [bare_row 1, bare_row 2, bare_row 3] 2 1 Add)\<lparr> jumpPage := 2 \<rparr>)
       = (showing [bare_row 1, bare_row 2, bare_row 3] 2 1 Add)\<lparr> jumpPage := 2, currentPage := 2 \<rparr>
   \<and> handleJump ((showing [bare_row 1, bare_row 2, bare_row 3] 2 1 Add)\<lparr> jumpPage := 3 \<rparr>)
       = (showing [bare_row 1, bare_row 2, bare_row 3] 2 1 Add)\<lparr> jumpPage := 3 \<rparr>
   \<and> handleJump ((showing [] 2 1 Add)\<lparr> jumpPage := 1 \<rparr>)
       = (showing [] 2 1 Add)\<lparr> jumpPage := 1 \<rparr>
   \<and> handleJump ((showing [bare_row 1, bare_row 2, bare_row 3] 2 1 Add)\<lparr> jumpPage := 3 / 2 \<rparr>)
       = (showing [bare_row 1, bare_row 2, bare_row 3] 2 1 Add)\<lparr> jumpPage := 3 / 2, currentPage := 3 / 2 \<rparr>"
proof -
  let ?s = "showing [bare_row 1, bare_row 2, bare_row 3] 2 1 Add"
  have p: "pageSize (?s\<lparr> jumpPage := 2 \<rparr>) \<noteq> 0" "pageSize (?s\<lparr> jumpPage := 3 \<rparr>) \<noteq> 0"
          "pageSize ((showing [] 2 1 Add)\<lparr> jumpPage := 1 \<rparr>) \<noteq> 0"
          "pageSize (?s\<lparr> jumpPage := 3 / 2 \<rparr>) \<noteq> 0"
    by (simp_all add: showing_def)
  show ?thesis
    using handleJump_range [OF p(1)] handleJump_range [OF p(2)] handleJump_range [OF p(3)]
      handleJump_range [OF p(4)]
    by (simp add: showing_def total_def)
qed

subsection \<open>C10: a delete whose target is gone\<close>

text \<open>
  C10. When no record of the collection has the row's id, \<open>handleDelete\<close> returns the
  state it was given, whatever the prompt answered: the collection, \<open>currentPage\<close>, the
  jump target and the message log (no success is reported) are unchanged.
\<close>

theorem delete_absent_noop:
  assumes "\<forall>item \<in> set (tableData s). item_id item \<noteq> item_id row"
  shows "handleDelete confirmed row s = s"
proof -
  have "\<not> findIndex (\<lambda>item. item_id item = item_id row) (tableData s) > - 1"
    using assms by (simp add: findIndex_found_iff)
  then show ?thesis by (simp add: handleDelete_def Let_def)
qed

theorem delete_absent_noop_witness:
  "map item_id (tableData (showing [bare_row 1, bare_row 2, bare_row 3] 2 2 Add)) = [1, 2, 3]
   \<and> item_id (bare_row 9) = 9
   \<and> handleDelete True (bare_row 9) (showing [bare_row 1, bare_row 2, bare_row 3] 2 2 Add)
       = showing [bare_row 1, bare_row 2, bare_row 3] 2 2 Add"
proof -
  let ?s = "showing [bare_row 1, bare_row 2, bare_row 3] 2 2 Add"
  have no: "\<forall>item \<in> set (tableData ?s). item_id item \<noteq> item_id (bare_row 9)"
    by (simp add: showing_def bare_row_def)
  show ?thesis
    using delete_absent_noop [OF no, of True] by (simp add: showing_def bare_row_def)
qed

section \<open>Facts about the form dialog\<close>

lemma draft_initForm:
  "draft (initForm d) =
     (case (mode (props d), formData (props d)) of
        (Edit, Some a) \<Rightarrow>
          \<lparr> categoryNameZh = Some (str_or (categoryNameZh (heap d a)) []),
            categoryNameEn = Some (str_or (categoryNameEn (heap d a)) []),
            sortOrder = Some (num_or (sortOrder (heap d a)) 1),
            status = Some (status_or (status (heap d a)) Enabled),
            form_id = form_id (heap d a) \<rparr>
      | _ \<Rightarrow> default_form)"
  by (simp add: initForm_def isEditMode_def draft_def new_object_def default_form_def
           split: DialogMode.splits option.splits)

lemma str_or_empty: "str_or x [] = (case x of None \<Rightarrow> [] | Some s \<Rightarrow> s)"
  by (simp add: str_or_def split: option.splits)

lemma validate_ok_iff:
  "validate obj = [] \<longleftrightarrow>
     (\<exists>zh. categoryNameZh obj = Some zh \<and> zh \<noteq> [] \<and> length zh \<le> 50)
   \<and> (\<exists>en. categoryNameEn obj = Some en \<and> en \<noteq> [] \<and> length en \<le> 50)
   \<and> (\<exists>n. sortOrder obj = Some n \<and> 0 < n)
   \<and> (\<exists>st. status obj = Some st)"
  by (auto simp: validate_def rules_def field_value_def maxLength_def split: option.splits)

lemma handleClose_simps:
  "emitted (handleClose d) = emitted d @ [UpdateVisible False]"
  "props (handleClose d) = props d"
  "form (handleClose d) = form d"
  "fresh (handleClose d) = fresh d"
  "a \<noteq> form d \<Longrightarrow> heap (handleClose d) a = heap d a"
  by (simp_all add: handleClose_def resetForm_def resetFields_def emit_def split: option.splits)

lemma handleConfirm_rejected:
  assumes "formRef d = Some fi" and "validate (draft d) \<noteq> []"
  shows "handleConfirm d = d\<lparr> formRef := Some (fi\<lparr> invalidFields := validate (draft d) \<rparr>) \<rparr>"
  using assms by (simp add: handleConfirm_def)

lemma handleConfirm_accepted:
  assumes "formRef d = Some fi" and "validate (draft d) = []"
  shows "emitted (handleConfirm d) = emitted d @ [Confirm (fresh d), UpdateVisible False]"
    and "props (handleConfirm d) = props d"
    and "form (handleConfirm d) = form d"
    and "fresh (handleConfirm d) = Suc (fresh d)"
    and "form d \<noteq> fresh d \<Longrightarrow> heap (handleConfirm d) (fresh d) = draft d"
    and "a \<noteq> form d \<Longrightarrow> a \<noteq> fresh d \<Longrightarrow> heap (handleConfirm d) a = heap d a"
  using assms
  by (simp_all add: handleConfirm_def handleClose_simps emit_def new_object_def draft_def)

lemma heap_step_frame:
  assumes "a < fresh d" and "a \<noteq> form d"
  shows "heap (step act d) a = heap d a"
proof (cases act)
  case (SetProps p)
  then show ?thesis using assms
    by (auto simp: set_props_def Let_def initForm_def new_object_def isEditMode_def
             split: option.splits bool.splits)
next
  case (Input e)
  then show ?thesis using assms by (simp add: input_def)
next
  case ClickConfirm
  show ?thesis
  proof (cases "formRef d")
    case None
    then show ?thesis using ClickConfirm by (simp add: handleConfirm_def)
  next
    case (Some fi)
    show ?thesis
    proof (cases "validate (draft d) = []")
      case True
      from handleConfirm_accepted(6) [OF Some True, of a] assms ClickConfirm
      show ?thesis by simp
    next
      case False
      from handleConfirm_rejected [OF Some False] ClickConfirm show ?thesis by simp
    qed
  qed
next
  case ClickCancel
  then show ?thesis using assms by (simp add: handleCancel_def handleClose_simps emit_def)
next
  case RequestClose
  then show ?thesis using assms by (simp add: handleClose_simps)
next
  case Opened
  then show ?thesis by (simp add: handleOpened_def clearValidate_def split: option.splits)
qed

lemma distinct_refs_created: "distinct_refs (created obj fi)"
  by (simp add: distinct_refs_def created_def)

lemma distinct_refs_step:
  assumes "distinct_refs d" and "host_action act d"
  shows "distinct_refs (step act d)"
proof (cases act)
  case (SetProps p)
  then show ?thesis using assms
    by (auto simp: distinct_refs_def host_props_def set_props_def Let_def initForm_def
                   new_object_def isEditMode_def
             split: option.splits bool.splits)
next
  case (Input e)
  then show ?thesis using assms
    by (auto simp: distinct_refs_def input_def split: option.splits)
next
  case ClickConfirm
  show ?thesis
  proof (cases "formRef d")
    case None
    then show ?thesis using ClickConfirm assms by (simp add: handleConfirm_def)
  next
    case (Some fi)
    show ?thesis
    proof (cases "validate (draft d) = []")
      case True
      from handleConfirm_accepted(2,3,4) [OF Some True] ClickConfirm assms(1)
      show ?thesis by (auto simp: distinct_refs_def split: option.splits)
    next
      case False
      from handleConfirm_rejected [OF Some False] ClickConfirm assms(1)
      show ?thesis by (auto simp: distinct_refs_def split: option.splits)
    qed
  qed
next
  case ClickCancel
  then show ?thesis using assms
    by (auto simp: distinct_refs_def handleCancel_def handleClose_simps emit_def
             split: option.splits)
next
  case RequestClose
  then show ?thesis using assms
    by (auto simp: distinct_refs_def handleClose_simps split: option.splits)
next
  case Opened
  then show ?thesis using assms
    by (auto simp: distinct_refs_def handleOpened_def clearValidate_def split: option.splits)
qed

lemma draft_set_props_heap_update:
  assumes "e \<noteq> form d" and "formData p \<noteq> Some e"
  shows "draft (set_props p (d\<lparr> heap := (heap d)(e := obj) \<rparr>)) = draft (set_props p d)"
proof (cases "visible p \<noteq> visible (props d) \<and> visible p")
  case True
  then show ?thesis using assms(2)
    by (auto simp: set_props_def Let_def draft_initForm split: DialogMode.splits option.splits)
next
  case False
  then show ?thesis using assms(1)
    by (auto simp: set_props_def Let_def draft_def)
qed

lemma set_props_heap_update:
  assumes "e < fresh d" and "formData p \<noteq> Some e"
  shows "set_props p (d\<lparr> heap := (heap d)(e := obj) \<rparr>)
           = (set_props p d)\<lparr> heap := (heap (set_props p d))(e := obj) \<rparr>"
  using assms
  by (auto simp: set_props_def Let_def initForm_def new_object_def isEditMode_def fun_upd_twist
           split: option.splits bool.splits)

lemma set_props_refs:
  "form (set_props p d) = form d \<or> form (set_props p d) = fresh d"
  "fresh d \<le> fresh (set_props p d)"
  by (auto simp: set_props_def Let_def initForm_def new_object_def isEditMode_def
           split: option.splits bool.splits)

section \<open>Claims about the form dialog\<close>

subsection \<open>C6: the draft when the dialog opens\<close>

text \<open>
  The claim, as stated, has edit mode copy every field that the initial data has. The
  source writes the defaults with \<open>||\<close>, which also replaces a number that is 0: initial
  data whose \<open>sortOrder\<close> is 0 opens with \<open>sortOrder\<close> 1 in the draft.
\<close>

theorem init_zero_sort_counterexample:
  "heap (created (full_form 5 [65] [66] 0 Enabled) None) 0 = full_form 5 [65] [66] 0 Enabled
   \<and> sortOrder (full_form 5 [65] [66] 0 Enabled) = Some 0
   \<and> sortOrder (draft (set_props open_edit_props
                         (created (full_form 5 [65] [66] 0 Enabled) None))) = Some 1"
  by (simp add: open_edit_props_def created_def full_form_def set_props_def Let_def draft_initForm num_or_def)

text \<open>
  C6, amended. When \<open>visible\<close> goes from false to true, the watcher initialises the
  draft in the same step. In edit mode with initial data, every field is copied from the
  initial data, a missing field is replaced by its default (names empty, \<open>sortOrder\<close> 1,
  status enabled), and a \<open>sortOrder\<close> of 0 is replaced by 1 as well. In add mode, or
  without initial data, the draft is exactly the defaults, without an id, whatever the
  dialog held before.
\<close>

theorem open_initialises_draft:
  assumes "\<not> visible (props d)" and "visible p"
  shows "(mode p = Edit \<and> formData p = Some a \<longrightarrow>
            draft (set_props p d) =
              \<lparr> categoryNameZh = Some (case categoryNameZh (heap d a) of None \<Rightarrow> [] | Some s \<Rightarrow> s),
                categoryNameEn = Some (case categoryNameEn (heap d a) of None \<Rightarrow> [] | Some s \<Rightarrow> s),
                sortOrder = Some (case sortOrder (heap d a) of
                                    None \<Rightarrow> 1 | Some n \<Rightarrow> if n = 0 then 1 else n),
                status = Some (case status (heap d a) of None \<Rightarrow> Enabled | Some st \<Rightarrow> st),
                form_id = form_id (heap d a) \<rparr>)
       \<and> (mode p = Add \<or> formData p = None \<longrightarrow> draft (set_props p d) = default_form)"
  using assms
  by (auto simp: set_props_def Let_def draft_initForm str_or_empty num_or_def status_or_def
           split: DialogMode.splits option.splits)

theorem open_initialises_draft_witness:
  "draft (set_props open_edit_props
            (created (full_form 5 [65] [66] 3 Enabled) None))
     = full_form 5 [65] [66] 3 Enabled
   \<and> draft (set_props open_add_props
            (input (SetNameZh [88]) (created (full_form 5 [65] [66] 3 Enabled) None)))
     = default_form
   \<and> categoryNameZh (draft (input (SetNameZh [88]) (created (full_form 5 [65] [66] 3 Enabled) None)))
     = Some [88]"
proof -
  let ?c = "created (full_form 5 [65] [66] 3 Enabled) None"
  let ?e = "open_edit_props"
  let ?a = "open_add_props"
  have shut: "\<not> visible (props ?c)" "\<not> visible (props (input (SetNameZh [88]) ?c))"
    by (simp_all add: created_def input_def)
  have opens: "visible ?e" "visible ?a"
    by (simp_all add: open_edit_props_def open_add_props_def)
  show ?thesis
    using open_initialises_draft [OF shut(1) opens(1), of 0]
          open_initialises_draft [OF shut(2) opens(2)]
    by (simp add: created_def full_form_def input_def draft_def open_edit_props_def
          open_add_props_def)
qed

subsection \<open>C7: submitting\<close>

text \<open>
  C7. \<open>handleConfirm\<close> validates the draft against \<open>rules\<close>: the draft passes exactly
  when both names are there, not empty and at most 50 characters long, \<open>sortOrder\<close> is a
  number greater than 0 and the status is there; an empty \<open>categoryNameZh\<close> fails. When
  the draft fails (or the form is not mounted) nothing is emitted and neither the props nor
  any object change, so the dialog stays open. When it passes, \<open>confirm\<close> is emitted
  with a new object equal to the draft, followed by \<open>update:visible\<close> with false.
\<close>

theorem confirm_validates:
  assumes "form d \<noteq> fresh d"
  shows "(validate (draft d) = [] \<longleftrightarrow>
            (\<exists>zh. categoryNameZh (draft d) = Some zh \<and> zh \<noteq> [] \<and> length zh \<le> 50)
          \<and> (\<exists>en. categoryNameEn (draft d) = Some en \<and> en \<noteq> [] \<and> length en \<le> 50)
          \<and> (\<exists>n. sortOrder (draft d) = Some n \<and> 0 < n)
          \<and> (\<exists>st. status (draft d) = Some st))
       \<and> (categoryNameZh (draft d) = Some [] \<longrightarrow> validate (draft d) \<noteq> [])
       \<and> (validate (draft d) \<noteq> [] \<or> formRef d = None \<longrightarrow>
            emitted (handleConfirm d) = emitted d
          \<and> props (handleConfirm d) = props d
          \<and> heap (handleConfirm d) = heap d)
       \<and> (validate (draft d) = [] \<and> formRef d \<noteq> None \<longrightarrow>
            emitted (handleConfirm d) = emitted d @ [Confirm (fresh d), UpdateVisible False]
          \<and> heap (handleConfirm d) (fresh d) = draft d)"
proof -
  have rejected: "emitted (handleConfirm d) = emitted d \<and> props (handleConfirm d) = props d
      \<and> heap (handleConfirm d) = heap d"
    if "validate (draft d) \<noteq> [] \<or> formRef d = None"
  proof (cases "formRef d")
    case None
    then show ?thesis by (simp add: handleConfirm_def)
  next
    case (Some fi)
    with that have "validate (draft d) \<noteq> []" by simp
    from handleConfirm_rejected [OF Some this] show ?thesis by simp
  qed
  have accepted: "emitted (handleConfirm d) = emitted d @ [Confirm (fresh d), UpdateVisible False]
      \<and> heap (handleConfirm d) (fresh d) = draft d"
    if "validate (draft d) = []" and "formRef d \<noteq> None"
  proof -
    from that(2) obtain fi where "formRef d = Some fi" by auto
    from handleConfirm_accepted(1,5) [OF this that(1)] assms show ?thesis by simp
  qed
  have empty: "validate (draft d) \<noteq> []" if "categoryNameZh (draft d) = Some []"
    using that by (simp add: validate_ok_iff)
  show ?thesis
    using rejected accepted empty validate_ok_iff [of "draft d"] by blast
qed

theorem confirm_validates_witness:
  "form (created default_form (Some mounted_form)) \<noteq> fresh (created default_form (Some mounted_form))
   \<and> categoryNameZh (draft (created default_form (Some mounted_form))) = Some []
   \<and> emitted (handleConfirm (created default_form (Some mounted_form))) = []
   \<and> validate (draft (input (SetNameEn [66]) (input (SetNameZh [65])
          (created default_form (Some mounted_form))))) = []
   \<and> emitted (handleConfirm (input (SetNameEn [66]) (input (SetNameZh [65])
          (created default_form (Some mounted_form)))))
       = [Confirm 2, UpdateVisible False]
   \<and> heap (handleConfirm (input (SetNameEn [66]) (input (SetNameZh [65])
          (created default_form (Some mounted_form))))) 2
       = \<lparr> categoryNameZh = Some [65], categoryNameEn = Some [66], sortOrder = Some 1,
           status = Some Enabled, form_id = None \<rparr>"
proof -
  let ?d1 = "created default_form (Some mounted_form)"
  let ?d2 = "input (SetNameEn [66]) (input (SetNameZh [65]) ?d1)"
  have r1: "form ?d1 \<noteq> fresh ?d1" "formRef ?d1 \<noteq> None" "emitted ?d1 = []"
    by (simp_all add: created_def)
  have r2: "form ?d2 \<noteq> fresh ?d2" "formRef ?d2 \<noteq> None" "emitted ?d2 = []" "fresh ?d2 = 2"
    by (simp_all add: created_def input_def)
  have e1: "draft ?d1 = default_form"
    by (simp add: created_def draft_def)
  have e2: "draft ?d2 = \<lparr> categoryNameZh = Some [65], categoryNameEn = Some [66],
                          sortOrder = Some 1, status = Some Enabled, form_id = None \<rparr>"
    by (simp add: created_def input_def draft_def default_form_def)
  note t1 = confirm_validates [OF r1(1)] and t2 = confirm_validates [OF r2(1)]
  have z: "categoryNameZh (draft ?d1) = Some []"
    unfolding e1 by (simp add: default_form_def)
  from t1 z have "validate (draft ?d1) \<noteq> []" by blast
  with t1 have out1: "emitted (handleConfirm ?d1) = emitted ?d1" by blast
  from t2 [THEN conjunct1] have v2: "validate (draft ?d2) = []"
    unfolding e2 by simp
  with t2 r2(2) have out2:
    "emitted (handleConfirm ?d2) = emitted ?d2 @ [Confirm (fresh ?d2), UpdateVisible False]"
    "heap (handleConfirm ?d2) (fresh ?d2) = draft ?d2"
    by blast+
  show ?thesis
    using r1(1) z out1 v2 out2 unfolding r1(3) r2(3) r2(4) e2 by simp
qed

subsection \<open>C9: the dialog shares no object with its host\<close>

text \<open>
  C9. In a dialog whose references are well formed, no action (new props and the
  initialisation they trigger, an edit of the draft, confirm, cancel, close, opened)
  changes the object that \<open>formData\<close> refers to, nor any other allocated object than the
  draft, and the references stay well formed. When a valid draft is confirmed, the emitted
  object equals the draft as it was validated and is not the draft object: writing to it
  leaves the draft as it is, and a dialog that is then closed and opened again (on other
  initial data than that object) shows the same draft as if nothing had been written.
\<close>

theorem dialog_shares_nothing:
  assumes "distinct_refs d"
  shows "(formData (props d) = Some a \<longrightarrow> heap (step act d) a = heap d a)
       \<and> (b < fresh d \<and> b \<noteq> form d \<longrightarrow> heap (step act d) b = heap d b)
       \<and> (host_action act d \<longrightarrow> distinct_refs (step act d))
       \<and> (formRef d \<noteq> None \<and> validate (draft d) = [] \<longrightarrow>
            emitted (handleConfirm d) = emitted d @ [Confirm (fresh d), UpdateVisible False]
          \<and> heap (handleConfirm d) (fresh d) = draft d
          \<and> fresh d \<noteq> form (handleConfirm d)
          \<and> draft ((handleConfirm d)\<lparr> heap := (heap (handleConfirm d))(fresh d := obj) \<rparr>)
              = draft (handleConfirm d)
          \<and> (formData q \<noteq> Some (fresh d) \<and> formData p \<noteq> Some (fresh d) \<longrightarrow>
                draft (set_props p (set_props q
                        ((handleConfirm d)\<lparr> heap := (heap (handleConfirm d))(fresh d := obj) \<rparr>)))
                  = draft (set_props p (set_props q (handleConfirm d)))))"
proof -
  from assms have lt: "form d < fresh d" by (simp add: distinct_refs_def)
  have initial: "heap (step act d) a = heap d a" if "formData (props d) = Some a"
    using that assms by (intro heap_step_frame) (simp_all add: distinct_refs_def)
  have frame: "heap (step act d) b = heap d b" if "b < fresh d \<and> b \<noteq> form d"
    using that by (intro heap_step_frame) simp_all
  have inv: "distinct_refs (step act d)" if "host_action act d"
    using assms that by (rule distinct_refs_step)
  have out: "emitted (handleConfirm d) = emitted d @ [Confirm (fresh d), UpdateVisible False]
          \<and> heap (handleConfirm d) (fresh d) = draft d
          \<and> fresh d \<noteq> form (handleConfirm d)
          \<and> draft ((handleConfirm d)\<lparr> heap := (heap (handleConfirm d))(fresh d := obj) \<rparr>)
              = draft (handleConfirm d)
          \<and> (formData q \<noteq> Some (fresh d) \<and> formData p \<noteq> Some (fresh d) \<longrightarrow>
                draft (set_props p (set_props q
                        ((handleConfirm d)\<lparr> heap := (heap (handleConfirm d))(fresh d := obj) \<rparr>)))
                  = draft (set_props p (set_props q (handleConfirm d))))"
    if "formRef d \<noteq> None \<and> validate (draft d) = []"
  proof -
    let ?d' = "handleConfirm d"
    from that obtain fi where fi: "formRef d = Some fi" and ok: "validate (draft d) = []" by auto
    note acc = handleConfirm_accepted [OF fi ok]
    have ne: "fresh d \<noteq> form ?d'" using acc(3) lt by simp
    have same: "draft (?d'\<lparr> heap := (heap ?d')(fresh d := obj) \<rparr>) = draft ?d'"
      using ne by (simp add: draft_def)
    have reopened: "draft (set_props p (set_props q (?d'\<lparr> heap := (heap ?d')(fresh d := obj) \<rparr>)))
        = draft (set_props p (set_props q ?d'))"
      if q: "formData q \<noteq> Some (fresh d)" and p: "formData p \<noteq> Some (fresh d)"
    proof -
      have alloc: "fresh d < fresh ?d'" using acc(4) by simp
      have "form (set_props q ?d') = form ?d' \<or> form (set_props q ?d') = fresh ?d'"
        by (rule set_props_refs)
      with ne alloc have ne': "fresh d \<noteq> form (set_props q ?d')" by auto
      have "set_props q (?d'\<lparr> heap := (heap ?d')(fresh d := obj) \<rparr>)
              = (set_props q ?d')\<lparr> heap := (heap (set_props q ?d'))(fresh d := obj) \<rparr>"
        using alloc q by (rule set_props_heap_update)
      then show ?thesis
        using draft_set_props_heap_update [OF ne' p] by simp
    qed
    show ?thesis
      using acc(1) acc(5) lt ne same reopened by simp
  qed
  show ?thesis using initial frame inv out by blast
qed

theorem dialog_shares_nothing_witness:
  "distinct_refs (set_props open_edit_props (created (full_form 5 [65] [66] 3 Enabled) (Some mounted_form)))
   \<and> formData (props (set_props open_edit_props
          (created (full_form 5 [65] [66] 3 Enabled) (Some mounted_form)))) = Some 0
   \<and> heap (step (Input (SetNameZh [88])) (set_props open_edit_props
          (created (full_form 5 [65] [66] 3 Enabled) (Some mounted_form)))) 0
       = full_form 5 [65] [66] 3 Enabled
   \<and> heap (step ClickConfirm (set_props open_edit_props
          (created (full_form 5 [65] [66] 3 Enabled) (Some mounted_form)))) 0
       = full_form 5 [65] [66] 3 Enabled
   \<and> emitted (handleConfirm (set_props open_edit_props
          (created (full_form 5 [65] [66] 3 Enabled) (Some mounted_form))))
       = [Confirm 3, UpdateVisible False]
   \<and> heap (handleConfirm (set_props open_edit_props
          (created (full_form 5 [65] [66] 3 Enabled) (Some mounted_form)))) 3
       = full_form 5 [65] [66] 3 Enabled
   \<and> form (handleConfirm (set_props open_edit_props
          (created (full_form 5 [65] [66] 3 Enabled) (Some mounted_form)))) = 2
   \<and> draft (set_props open_edit_props (set_props closed_props
          ((handleConfirm (set_props open_edit_props
              (created (full_form 5 [65] [66] 3 Enabled) (Some mounted_form))))
           \<lparr> heap := (heap (handleConfirm (set_props open_edit_props
                (created (full_form 5 [65] [66] 3 Enabled) (Some mounted_form)))))
                (3 := default_form) \<rparr>)))
       = draft (set_props open_edit_props (set_props closed_props
          (handleConfirm (set_props open_edit_props
              (created (full_form 5 [65] [66] 3 Enabled) (Some mounted_form))))))"
proof -
  let ?obj = "full_form 5 [65] [66] 3 Enabled"
  let ?d = "set_props open_edit_props (created ?obj (Some mounted_form))"
  have refs: "form ?d = 2" "fresh ?d = 3" "props ?d = open_edit_props"
    "formRef ?d = Some mounted_form" "emitted ?d = []"
    by (simp_all add: set_props_def Let_def open_edit_props_def created_def initForm_def
          isEditMode_def new_object_def)
  have objs: "heap ?d 0 = ?obj" "draft ?d = ?obj"
    by (simp_all add: set_props_def Let_def open_edit_props_def created_def draft_def
          initForm_def isEditMode_def new_object_def full_form_def str_or_def num_or_def
          status_or_def)
  have wf: "distinct_refs ?d"
    unfolding distinct_refs_def refs by (simp add: open_edit_props_def)
  have valid: "formRef ?d \<noteq> None \<and> validate (draft ?d) = []"
    unfolding refs objs by (simp add: validate_ok_iff full_form_def)
  have src: "formData (props ?d) = Some 0"
    unfolding refs by (simp add: open_edit_props_def)
  have other: "formData closed_props \<noteq> Some (fresh ?d) \<and> formData open_edit_props \<noteq> Some (fresh ?d)"
    unfolding refs by (simp add: closed_props_def open_edit_props_def)
  have fm: "form (handleConfirm ?d) = 2"
    using handleConfirm_accepted(3) [OF refs(4)] valid refs(1) by simp
  note t1 = dialog_shares_nothing [OF wf, of 0 "Input (SetNameZh [88])" 0 default_form
                closed_props open_edit_props]
    and t2 = dialog_shares_nothing [OF wf, of 0 ClickConfirm 0 default_form
                closed_props open_edit_props]
  from t1 src have k1: "heap (step (Input (SetNameZh [88])) ?d) 0 = heap ?d 0" by blast
  from t2 src have k2: "heap (step ClickConfirm ?d) 0 = heap ?d 0" by blast
  from t2 valid other have k3:
    "emitted (handleConfirm ?d) = emitted ?d @ [Confirm (fresh ?d), UpdateVisible False]"
    "heap (handleConfirm ?d) (fresh ?d) = draft ?d"
    "draft (set_props open_edit_props (set_props closed_props
        ((handleConfirm ?d)\<lparr> heap := (heap (handleConfirm ?d))(fresh ?d := default_form) \<rparr>)))
      = draft (set_props open_edit_props (set_props closed_props (handleConfirm ?d)))"
    by blast+
  show ?thesis
    using wf src k1 k2 k3 fm unfolding refs(2) refs(5) objs by simp
qed

end
